theory Spec2Isabelle
  imports Main "HOL-Library.Sublist" "HOL-Library.Char_ord"
begin

section \<open>Execution session and command runner\<close>

text \<open>
  The session of the source owns a websocket connection (\<open>ws\<close>, nil until \<open>Attach\<close>
  succeeds) and a channel \<open>ch\<close> that a background reader feeds with the messages it
  receives.  The connection is modelled by the messages written to it so far and a flag
  telling whether a write on it reports an error; the channel by the list of lines the
  reader is going to deliver, in order.  Printing to standard output (\<open>fmt.Println\<close>,
  \<open>fmt.Print\<close>) is not part of the model.
\<close>

record conn =
  wire :: "string list"
  broken :: bool

record Session =
  wsUrl :: string
  ws :: "conn option"
  ch :: "string list"

text \<open>
  What a call does: it returns, it ends the process (\<open>log.Fatalln\<close>), it panics
  (a nil connection is dereferenced), or it never returns (a receive on a channel on
  which nothing more arrives).
\<close>

datatype 'a outcome = Returns 'a | Exits | Panics | Hangs

definition newline :: string where
  "newline = [CHR 0x0A]"

text \<open>\<open>websocket.Message.Send(ws, msg)\<close>: a nil connection is dereferenced.\<close>

definition Message_Send :: "conn option \<Rightarrow> string \<Rightarrow> (conn + unit) outcome" where
  "Message_Send w msg =
     (case w of
        None \<Rightarrow> Panics
      | Some c \<Rightarrow> if broken c then Returns (Inr ()) else Returns (Inl (c\<lparr>wire := wire c @ [msg]\<rparr>)))"

text \<open>\<open>Attach\<close>: the result of \<open>websocket.Dial\<close> is a parameter (a connection or an error).\<close>

definition Attach :: "(string + conn) \<Rightarrow> Session \<Rightarrow> Session \<times> string option" where
  "Attach dial s =
     (case dial of
        Inl err \<Rightarrow> (s, Some err)
      | Inr c \<Rightarrow> (s\<lparr>ws := Some c\<rparr>, None))"

text \<open>\<open>Send\<close> has no result: a failed write ends the process.\<close>

fun Send :: "Session \<Rightarrow> string list \<Rightarrow> Session outcome" where
  "Send s [] = Returns s"
| "Send s (c # cs) =
     (case Message_Send (ws s) (c @ newline) of
        Returns (Inl w) \<Rightarrow> Send (s\<lparr>ws := Some w\<rparr>) cs
      | Returns (Inr _) \<Rightarrow> Exits
      | Exits \<Rightarrow> Exits
      | Panics \<Rightarrow> Panics
      | Hangs \<Rightarrow> Hangs)"

text \<open>
  \<open>fmt.Sscanf(line, "%s %d\n", &rand, &exitCode)\<close> is a parameter of the runner: a
  scanner maps the line to the value it stored into \<open>exitCode\<close> (if it got that far) and
  to the error it returned (if any).
\<close>

type_synonym scanner = "string \<Rightarrow> int option \<times> string option"

text \<open>An \<open>int\<close> has 64 bits.\<close>

definition int_fits :: "int \<Rightarrow> bool" where
  "int_fits v \<longleftrightarrow> - (2 ^ 63) \<le> v \<and> v < 2 ^ 63"

text \<open>
  A scanner to run the model with: it follows \<open>fmt.Sscanf\<close> with that format on a line
  made of a token, blanks, an optional sign and decimal digits, up to the end of the input
  or a newline (a line feed, or a carriage return and a line feed).  A number that does
  not fit an \<open>int\<close> is an error and nothing is stored.
\<close>

definition is_blank :: "char \<Rightarrow> bool" where
  "is_blank c \<longleftrightarrow> c = CHR '' '' \<or> c = CHR 0x09 \<or> c = CHR 0x0D"

definition is_digit :: "char \<Rightarrow> bool" where
  "is_digit c \<longleftrightarrow> CHR ''0'' \<le> c \<and> c \<le> CHR ''9''"

definition digits_value :: "string \<Rightarrow> int" where
  "digits_value ds = foldl (\<lambda>a c. 10 * a + (of_char c - 48)) 0 ds"

definition Sscanf_token_status :: scanner where
  "Sscanf_token_status line =
     (let s1 = dropWhile is_blank line;
          tok = takeWhile (\<lambda>c. \<not> is_blank c \<and> c \<noteq> CHR 0x0A) s1;
          s2 = dropWhile is_blank (drop (length tok) s1);
          neg = (s2 \<noteq> [] \<and> hd s2 = CHR ''-'');
          s3 = (if s2 \<noteq> [] \<and> (hd s2 = CHR ''-'' \<or> hd s2 = CHR ''+'') then tl s2 else s2);
          ds = takeWhile is_digit s3;
          s4 = drop (length ds) s3;
          v = (if neg then - digits_value ds else digits_value ds)
      in if tok = [] then (None, Some ''unexpected EOF'')
         else if ds = [] then (None, Some ''expected integer'')
         else if \<not> int_fits v then (None, Some ''value out of range'')
         else if s4 = [] \<or> hd s4 = CHR 0x0A \<or> take 2 s4 = [CHR 0x0D, CHR 0x0A] then (Some v, None)
         else (Some v, Some ''newline in format does not match input''))"

text \<open>The read loop of \<open>SendChecked\<close>; \<open>recv\<close> is the output captured so far.\<close>

fun recv_loop ::
  "scanner \<Rightarrow> string \<Rightarrow> string list \<Rightarrow> string list \<Rightarrow>
   (string list \<times> int \<times> string list \<times> string option) outcome" where
  "recv_loop scan rand [] recv = Hangs"
| "recv_loop scan rand (line # rest) recv =
     (if prefix rand line then
        (let exitCode = (case fst (scan line) of None \<Rightarrow> 0 | Some v \<Rightarrow> v) in
         case snd (scan line) of
           Some err \<Rightarrow> Returns (rest, exitCode, recv, Some err)
         | None \<Rightarrow> Returns (rest, exitCode, recv, None))
      else recv_loop scan rand rest (recv @ [line]))"

text \<open>
  \<open>SendChecked\<close>: \<open>rand\<close> is the token \<open>uuid.NewRandom().String()\<close> drew.  The result
  is the session afterwards, the exit code, the captured lines and the error.
\<close>

definition SendChecked ::
  "scanner \<Rightarrow> string \<Rightarrow> Session \<Rightarrow> string list \<Rightarrow>
   (Session \<times> int \<times> string list \<times> string option) outcome" where
  "SendChecked scan rand s commands =
     (case Send s commands of
        Returns s1 \<Rightarrow>
          (case Send s1 [''echo '' @ rand @ '' $?''] of
             Returns s2 \<Rightarrow>
               (case recv_loop scan rand (ch s2) [] of
                  Returns (rest, exitCode, recv, err) \<Rightarrow>
                    Returns (s2\<lparr>ch := rest\<rparr>, exitCode, recv, err)
                | Exits \<Rightarrow> Exits | Panics \<Rightarrow> Panics | Hangs \<Rightarrow> Hangs)
           | Exits \<Rightarrow> Exits | Panics \<Rightarrow> Panics | Hangs \<Rightarrow> Hangs)
      | Exits \<Rightarrow> Exits | Panics \<Rightarrow> Panics | Hangs \<Rightarrow> Hangs)"

section \<open>Configuration documents\<close>

subsection \<open>YAML values and the results of decoding\<close>

text \<open>
  The configuration parser of the source is a set of \<open>UnmarshalYAML\<close> methods that the
  yaml package calls with a function \<open>unmarshal\<close>, which decodes the current node into
  a Go value.  The package itself is not part of the repository.  Its input is modelled
  as the node tree it builds from the text: null, the scalars with their source text
  (the text is what a scalar decodes to when the target is a string) and their resolved
  value, sequences and mappings.  A mapping is the list of its entries in document order;
  keys are scalars and are modelled by their text.  Floats, tags, anchors and merge keys
  are outside the model.
\<close>

datatype yaml =
    YNull
  | YStr string
  | YInt string int
  | YBool string bool
  | YSeq "yaml list"
  | YMap "(string \<times> yaml) list"

text \<open>
  Go's \<open>error\<close> values: the yaml package's \<open>*yaml.TypeError\<close>, which collects
  messages, and every other error (\<open>fmt.Errorf\<close>).
\<close>

datatype go_error = TypeError "string list" | ErrorString string

text \<open>
  The result of an \<open>UnmarshalYAML\<close> method: the receiver as the method left it and
  the error it returned, or a run-time panic.
\<close>

datatype 'a result = Ok 'a | Fail go_error 'a | Panic

text \<open>
  The result of the package decoding a node into a target (\<open>d.unmarshal\<close>): the target
  afterwards, whether the node was taken (a sequence or a mapping keeps only the
  elements that were), and the type errors recorded on the way, after which decoding goes
  on.  An error of a method that is not a type error stops the decoding (the package
  panics with it and hands it to the caller of the enclosing \<open>unmarshal\<close>), leaving
  the target as far as it was filled; a run-time panic is passed on.
\<close>

datatype 'a decoded = Decoded 'a bool "string list" | Aborted string 'a | Crashed

definition callUnmarshaler :: "'a result \<Rightarrow> 'a decoded" where
  "callUnmarshaler r =
     (case r of
        Ok v \<Rightarrow> Decoded v True []
      | Fail (TypeError es) v \<Rightarrow> Decoded v False es
      | Fail (ErrorString e) v \<Rightarrow> Aborted e v
      | Panic \<Rightarrow> Crashed)"

text \<open>
  The function \<open>unmarshal\<close> handed to a method: the recorded type errors, if any, come
  back as one \<open>TypeError\<close>.  \<open>None\<close> is a run-time panic.
\<close>

definition unmarshal :: "'a decoded \<Rightarrow> ('a \<times> go_error option) option" where
  "unmarshal d =
     (case d of
        Decoded v good es \<Rightarrow> Some (v, if es = [] then None else Some (TypeError es))
      | Aborted e v \<Rightarrow> Some (v, Some (ErrorString e))
      | Crashed \<Rightarrow> None)"

definition cannot :: "string \<Rightarrow> string \<Rightarrow> string" where
  "cannot tag target = ''cannot unmarshal '' @ tag @ '' into '' @ target"

text \<open>Decoding into a \<open>string\<close>: the text of a scalar; null gives the zero value.\<close>

fun decode_string :: "string \<Rightarrow> yaml \<Rightarrow> string decoded" where
  "decode_string old YNull = Decoded [] True []"
| "decode_string old (YStr s) = Decoded s True []"
| "decode_string old (YInt raw v) = Decoded raw True []"
| "decode_string old (YBool raw b) = Decoded raw True []"
| "decode_string old (YSeq xs) = Decoded old False [cannot ''!!seq'' ''string'']"
| "decode_string old (YMap ps) = Decoded old False [cannot ''!!map'' ''string'']"

text \<open>Decoding into an \<open>int\<close> (64 bits).\<close>

fun decode_int :: "int \<Rightarrow> yaml \<Rightarrow> int decoded" where
  "decode_int old YNull = Decoded 0 True []"
| "decode_int old (YInt raw v) =
     (if int_fits v then Decoded v True [] else Decoded old False [cannot ''!!int'' ''int''])"
| "decode_int old (YStr s) = Decoded old False [cannot ''!!str'' ''int'']"
| "decode_int old (YBool raw b) = Decoded old False [cannot ''!!bool'' ''int'']"
| "decode_int old (YSeq xs) = Decoded old False [cannot ''!!seq'' ''int'']"
| "decode_int old (YMap ps) = Decoded old False [cannot ''!!map'' ''int'']"

text \<open>
  A Go map built from entries holds one value for each key, the last one written.
  \<open>entries\<close> lists the content of such a map; where the source ranges over a map (in
  an order Go leaves open), the model visits this list.
\<close>

fun entries :: "(string \<times> 'a) list \<Rightarrow> (string \<times> 'a) list" where
  "entries [] = []"
| "entries ((k, v) # ps) = (if k \<in> fst ` set ps then entries ps else (k, v) # entries ps)"

text \<open>A map that may be nil: \<open>None\<close> is the nil map.\<close>

type_synonym ('k, 'v) gomap = "('k \<rightharpoonup> 'v) option"

fun tag_of :: "yaml \<Rightarrow> string" where
  "tag_of YNull = ''!!null''"
| "tag_of (YStr s) = ''!!str''"
| "tag_of (YInt raw v) = ''!!int''"
| "tag_of (YBool raw b) = ''!!bool''"
| "tag_of (YSeq xs) = ''!!seq''"
| "tag_of (YMap ps) = ''!!map''"

text \<open>
  Decoding a sequence into a slice: every element is decoded by \<open>elem\<close>, the elements
  that were taken are kept in order.  A nil slice and an empty slice are not told apart
  (the source only ranges over its slices).  The slice of a stopped decoding is modelled
  by the elements taken so far; nothing in the source looks at it.
\<close>

fun decode_elems :: "(yaml \<Rightarrow> 'a decoded) \<Rightarrow> yaml list \<Rightarrow> 'a list decoded" where
  "decode_elems elem [] = Decoded [] True []"
| "decode_elems elem (x # xs) =
     (case elem x of
        Decoded v good es \<Rightarrow>
          (case decode_elems elem xs of
             Decoded vs good' es' \<Rightarrow> Decoded ((if good then [v] else []) @ vs) True (es @ es')
           | Aborted e vs \<Rightarrow> Aborted e ((if good then [v] else []) @ vs)
           | Crashed \<Rightarrow> Crashed)
      | Aborted e v \<Rightarrow> Aborted e []
      | Crashed \<Rightarrow> Crashed)"

definition decode_slice ::
  "string \<Rightarrow> (yaml \<Rightarrow> 'a decoded) \<Rightarrow> 'a list \<Rightarrow> yaml \<Rightarrow> 'a list decoded" where
  "decode_slice target elem old node =
     (case node of
        YSeq xs \<Rightarrow> decode_elems elem xs
      | YNull \<Rightarrow> Decoded [] True []
      | _ \<Rightarrow> Decoded old False [cannot (tag_of node) target])"

text \<open>
  Decoding into a pointer whose type has an \<open>UnmarshalYAML\<close> method \<open>um\<close>: a null node
  gives the nil pointer and the method is not called; otherwise the pointer is
  allocated and the method runs on the node.
\<close>

definition decode_ptr :: "(yaml \<Rightarrow> 'a result) \<Rightarrow> yaml \<Rightarrow> 'a option decoded" where
  "decode_ptr um node =
     (case node of
        YNull \<Rightarrow> Decoded None True []
      | _ \<Rightarrow> map_decoded Some (callUnmarshaler (um node)))"

text \<open>
  Decoding a mapping into a struct: the entries are visited in document order, \<open>fld\<close>
  decodes the value of a known key into its field and leaves the struct alone at an
  unknown key.
\<close>

fun decode_fields ::
  "(string \<Rightarrow> yaml \<Rightarrow> 'a \<Rightarrow> 'a decoded) \<Rightarrow> (string \<times> yaml) list \<Rightarrow> 'a \<Rightarrow> 'a decoded" where
  "decode_fields fld [] r = Decoded r True []"
| "decode_fields fld ((k, v) # ps) r =
     (case fld k v r of
        Decoded r' good es \<Rightarrow>
          (case decode_fields fld ps r' of
             Decoded r'' good' es' \<Rightarrow> Decoded r'' True (es @ es')
           | Aborted e r'' \<Rightarrow> Aborted e r''
           | Crashed \<Rightarrow> Crashed)
      | Aborted e r' \<Rightarrow> Aborted e r'
      | Crashed \<Rightarrow> Crashed)"

definition decode_struct ::
  "string \<Rightarrow> (string \<Rightarrow> yaml \<Rightarrow> 'a \<Rightarrow> 'a decoded) \<Rightarrow> 'a \<Rightarrow> yaml \<Rightarrow> 'a decoded" where
  "decode_struct target fld r node =
     (case node of
        YMap ps \<Rightarrow> decode_fields fld ps r
      | _ \<Rightarrow> Decoded r False [cannot (tag_of node) target])"

text \<open>
  Decoding into \<open>yaml.MapSlice\<close>, a slice of items with a key and a value.  A mapping
  gives its entries in document order, duplicates kept.  A sequence is decoded as into
  any slice: each element into an item, which is a struct whose fields are found under
  the keys \<open>key\<close> and \<open>value\<close>; a null element gives the zero item, an element that is
  not a mapping is a type error and is left out.  The key of an item is a string in the
  source (\<open>stepID = item.Key\<close>) and is decoded as one; the value is an \<open>interface{}\<close>
  and takes any node.
\<close>

definition MapItem_field :: "string \<Rightarrow> yaml \<Rightarrow> string \<times> yaml \<Rightarrow> (string \<times> yaml) decoded" where
  "MapItem_field k v item =
     (if k = ''key'' then map_decoded (\<lambda>x. (x, snd item)) (decode_string (fst item) v)
      else if k = ''value'' then Decoded (fst item, v) True []
      else Decoded item True [])"

definition decode_MapItem :: "yaml \<Rightarrow> (string \<times> yaml) decoded" where
  "decode_MapItem node =
     (case node of
        YNull \<Rightarrow> Decoded ([], YNull) True []
      | _ \<Rightarrow> decode_struct ''yaml.MapItem'' MapItem_field ([], YNull) node)"

definition decode_MapSlice :: "(string \<times> yaml) list \<Rightarrow> yaml \<Rightarrow> (string \<times> yaml) list decoded" where
  "decode_MapSlice old node =
     (case node of
        YMap ps \<Rightarrow> Decoded ps True []
      | YSeq xs \<Rightarrow> decode_elems decode_MapItem xs
      | YNull \<Rightarrow> Decoded [] True []
      | _ \<Rightarrow> Decoded old False [cannot (tag_of node) ''yaml.MapSlice''])"

text \<open>
  The type assertion \<open>item.Value.(yaml.MapSlice)\<close> on an item of the slice decoded from
  \<open>node\<close>: inside a mapping decoded into a \<open>MapSlice\<close> the nested mappings are
  \<open>MapSlice\<close>s too; a mapping that is the value of an item decoded from a sequence is a
  plain Go map, and the assertion fails on it as on every other value.
\<close>

definition assert_MapSlice :: "yaml \<Rightarrow> yaml \<Rightarrow> (string \<times> yaml) list option" where
  "assert_MapSlice node v =
     (case node of
        YMap ps \<Rightarrow> (case v of YMap interData \<Rightarrow> Some interData | _ \<Rightarrow> None)
      | _ \<Rightarrow> None)"

text \<open>
  Decoding the entries of a mapping with \<open>elem\<close>: the entries that were taken, in
  document order.  Stored into a Go map (allocated first when it is nil), a later entry
  replaces an earlier one with the same key.
\<close>

fun decode_pairs :: "(yaml \<Rightarrow> 'a decoded) \<Rightarrow> (string \<times> yaml) list \<Rightarrow> (string \<times> 'a) list decoded" where
  "decode_pairs elem [] = Decoded [] True []"
| "decode_pairs elem ((k, v) # ps) =
     (case elem v of
        Decoded x good es \<Rightarrow>
          (case decode_pairs elem ps of
             Decoded xs good' es' \<Rightarrow> Decoded ((if good then [(k, x)] else []) @ xs) True (es @ es')
           | Aborted e xs \<Rightarrow> Aborted e ((if good then [(k, x)] else []) @ xs)
           | Crashed \<Rightarrow> Crashed)
      | Aborted e x \<Rightarrow> Aborted e []
      | Crashed \<Rightarrow> Crashed)"

definition store :: "(string, 'a) gomap \<Rightarrow> (string \<times> 'a) list \<Rightarrow> (string, 'a) gomap" where
  "store old xs = Some ((case old of None \<Rightarrow> Map.empty | Some m \<Rightarrow> m) ++ map_of (rev xs))"

definition decode_map ::
  "string \<Rightarrow> (yaml \<Rightarrow> 'a decoded) \<Rightarrow> (string, 'a) gomap \<Rightarrow> yaml \<Rightarrow> (string, 'a) gomap decoded" where
  "decode_map target elem old node =
     (case node of
        YMap ps \<Rightarrow> map_decoded (store old) (decode_pairs elem ps)
      | YNull \<Rightarrow> Decoded None True []
      | _ \<Rightarrow> Decoded old False [cannot (tag_of node) target])"

text \<open>
  The same for a map the source ranges over afterwards (it starts empty): the model keeps
  the content of the map as a list.
\<close>

definition decode_map_entries ::
  "string \<Rightarrow> (yaml \<Rightarrow> 'a decoded) \<Rightarrow> yaml \<Rightarrow> (string \<times> 'a) list decoded" where
  "decode_map_entries target elem node =
     (case node of
        YMap ps \<Rightarrow> map_decoded entries (decode_pairs elem ps)
      | YNull \<Rightarrow> Decoded [] True []
      | _ \<Rightarrow> Decoded [] False [cannot (tag_of node) target])"

subsection \<open>Boxes\<close>

record BoxConfig =
  ID :: string
  Name :: string
  Tag :: string
  Cmd :: string
  Env :: "(string, string) gomap"
  Ports :: "string list"
  Username :: string
  Password :: string
  Registry :: string
  Entrypoint :: string
  URL :: string
  Volumes :: string

definition empty_BoxConfig :: BoxConfig where
  "empty_BoxConfig =
     \<lparr>BoxConfig.ID = [], Name = [], Tag = [], Cmd = [], Env = None, Ports = [],
      Username = [], Password = [], Registry = [], Entrypoint = [], URL = [], Volumes = []\<rparr>"

definition IsExternal :: "BoxConfig \<Rightarrow> bool" where
  "IsExternal c \<longleftrightarrow> URL c \<noteq> [] \<and> prefix ''file://'' (URL c)"

text \<open>The fields of \<open>BoxConfig\<close> carry no tag: each is found under its lower-case name.\<close>

definition BoxConfig_field :: "string \<Rightarrow> yaml \<Rightarrow> BoxConfig \<Rightarrow> BoxConfig decoded" where
  "BoxConfig_field k v c =
     (if k = ''id'' then map_decoded (\<lambda>x. c\<lparr>BoxConfig.ID := x\<rparr>) (decode_string (BoxConfig.ID c) v)
      else if k = ''name'' then map_decoded (\<lambda>x. c\<lparr>BoxConfig.Name := x\<rparr>) (decode_string (BoxConfig.Name c) v)
      else if k = ''tag'' then map_decoded (\<lambda>x. c\<lparr>Tag := x\<rparr>) (decode_string (Tag c) v)
      else if k = ''cmd'' then map_decoded (\<lambda>x. c\<lparr>Cmd := x\<rparr>) (decode_string (Cmd c) v)
      else if k = ''env'' then 
        map_decoded (\<lambda>x. c\<lparr>Env := x\<rparr>)
          (decode_map ''map[string]string'' (decode_string []) (Env c) v)
      else if k = ''ports'' then
        map_decoded (\<lambda>x. c\<lparr>Ports := x\<rparr>) (decode_slice ''[]string'' (decode_string []) (Ports c) v)
      else if k = ''username'' then map_decoded (\<lambda>x. c\<lparr>Username := x\<rparr>) (decode_string (Username c) v)
      else if k = ''password'' then map_decoded (\<lambda>x. c\<lparr>Password := x\<rparr>) (decode_string (Password c) v)
      else if k = ''registry'' then map_decoded (\<lambda>x. c\<lparr>Registry := x\<rparr>) (decode_string (Registry c) v)
      else if k = ''entrypoint'' then
        map_decoded (\<lambda>x. c\<lparr>Entrypoint := x\<rparr>) (decode_string (Entrypoint c) v)
      else if k = ''url'' then map_decoded (\<lambda>x. c\<lparr>URL := x\<rparr>) (decode_string (URL c) v)
      else if k = ''volumes'' then map_decoded (\<lambda>x. c\<lparr>Volumes := x\<rparr>) (decode_string (Volumes c) v)
      else Decoded c True [])"

text \<open>
  \<open>RawBoxConfig.UnmarshalYAML\<close>: first the node as a string into \<open>ID\<close>, and when that
  fails the node into the whole struct.
\<close>

definition RawBoxConfig_UnmarshalYAML :: "yaml \<Rightarrow> BoxConfig result" where
  "RawBoxConfig_UnmarshalYAML node =
     (let r = empty_BoxConfig in
      case unmarshal (decode_string (BoxConfig.ID r) node) of
        None \<Rightarrow> Panic
      | Some (s, None) \<Rightarrow> Ok (r\<lparr>BoxConfig.ID := s\<rparr>)
      | Some (s, Some _) \<Rightarrow>
          (case unmarshal (decode_struct ''core.BoxConfig'' BoxConfig_field r node) of
             None \<Rightarrow> Panic
           | Some (r', None) \<Rightarrow> Ok r'
           | Some (r', Some err) \<Rightarrow> Fail err r'))"

subsection \<open>Steps\<close>

record StepConfig =
  ID :: string
  Cwd :: string
  Name :: string
  Data :: "(string, string) gomap"
  Checkpoint :: string

definition empty_StepConfig :: StepConfig where
  "empty_StepConfig = \<lparr>StepConfig.ID = [], Cwd = [], Name = [], Data = None, Checkpoint = []\<rparr>"

text \<open>\<open>strconv.Itoa\<close> and \<open>strconv.FormatBool\<close>.\<close>

fun digits10 :: "nat \<Rightarrow> string" where
  "digits10 n =
     (if n < 10 then [char_of (48 + n)]
      else digits10 (n div 10) @ [char_of (48 + n mod 10)])"

declare digits10.simps [simp del]

definition Itoa :: "int \<Rightarrow> string" where
  "Itoa v = (if v < 0 then CHR ''-'' # digits10 (nat (- v)) else digits10 (nat v))"

definition FormatBool :: "bool \<Rightarrow> string" where
  "FormatBool b = (if b then ''true'' else ''false'')"

text \<open>
  \<open>ifaceToString\<close> on the value a node has as an \<open>interface{}\<close>: a string, an \<open>int\<close>
  when the integer fits one (beyond that the package yields an unsigned integer or a
  float, which fall to the default case), a bool; nil, slices and maps fall to the
  default case.
\<close>

fun ifaceToString :: "yaml \<Rightarrow> string" where
  "ifaceToString (YStr v) = v"
| "ifaceToString (YInt raw v) = (if int_fits v then Itoa v else [])"
| "ifaceToString (YBool raw v) = FormatBool v"
| "ifaceToString YNull = []"
| "ifaceToString (YSeq xs) = []"
| "ifaceToString (YMap ps) = []"

text \<open>The loops \<open>stepData[item.Key] = ifaceToString(item.Value)\<close>.\<close>

fun fill_stepData :: "(string \<rightharpoonup> string) \<Rightarrow> (string \<times> yaml) list \<Rightarrow> (string \<rightharpoonup> string)" where
  "fill_stepData stepData [] = stepData"
| "fill_stepData stepData ((k, v) # items) = fill_stepData (stepData(k \<mapsto> ifaceToString v)) items"

text \<open>
  The end of \<open>RawStepConfig.UnmarshalYAML\<close>: the three typed parameters are moved
  from \<open>stepData\<close> into their fields, one after the other.
\<close>

definition take_cwd :: "StepConfig \<times> (string \<rightharpoonup> string) \<Rightarrow> StepConfig \<times> (string \<rightharpoonup> string)" where
  "take_cwd = (\<lambda>(r, stepData).
     case stepData ''cwd'' of
       Some v \<Rightarrow> (r\<lparr>Cwd := v\<rparr>, stepData(''cwd'' := None))
     | None \<Rightarrow> (r, stepData))"

definition take_name :: "StepConfig \<times> (string \<rightharpoonup> string) \<Rightarrow> StepConfig \<times> (string \<rightharpoonup> string)" where
  "take_name = (\<lambda>(r, stepData).
     case stepData ''name'' of
       Some v \<Rightarrow> (r\<lparr>StepConfig.Name := v\<rparr>, stepData(''name'' := None))
     | None \<Rightarrow> (r, stepData))"

definition take_checkpoint :: "StepConfig \<times> (string \<rightharpoonup> string) \<Rightarrow> StepConfig \<times> (string \<rightharpoonup> string)" where
  "take_checkpoint = (\<lambda>(r, stepData).
     case stepData ''checkpoint'' of
       Some v \<Rightarrow> (r\<lparr>Checkpoint := v\<rparr>, stepData(''checkpoint'' := None))
     | None \<Rightarrow> (r, stepData))"

definition finish_step :: "string \<Rightarrow> (string \<rightharpoonup> string) \<Rightarrow> StepConfig" where
  "finish_step stepID stepData =
     (case take_checkpoint (take_name (take_cwd (empty_StepConfig\<lparr>StepConfig.ID := stepID\<rparr>, stepData))) of
        (r, stepData') \<Rightarrow> r\<lparr>Data := Some stepData'\<rparr>)"

text \<open>
  \<open>RawStepConfig.UnmarshalYAML\<close>.  The error of the second \<open>unmarshal\<close> is dropped by
  the source; with no entry in \<open>topMap\<close> the read of \<open>topMap[0]\<close> panics.
\<close>

definition RawStepConfig_UnmarshalYAML :: "yaml \<Rightarrow> StepConfig result" where
  "RawStepConfig_UnmarshalYAML node =
     (let r = empty_StepConfig in
      case unmarshal (decode_string (StepConfig.ID r) node) of
        None \<Rightarrow> Panic
      | Some (s, None) \<Rightarrow> Ok (r\<lparr>StepConfig.ID := s\<rparr>)
      | Some (s, Some _) \<Rightarrow>
          (case unmarshal (decode_MapSlice [] node) of
             None \<Rightarrow> Panic
           | Some (topMap, _) \<Rightarrow>
               if length topMap = 1 then
                 (case topMap ! 0 of
                    (key, v) \<Rightarrow>
                      (case assert_MapSlice node v of
                         Some interData \<Rightarrow> Ok (finish_step key (fill_stepData Map.empty interData))
                       | None \<Rightarrow> Fail (ErrorString (''Step '' @ key @ '' is empty'')) r))
               else if topMap = [] then Panic
               else
                 (case topMap ! 0 of
                    (key, _) \<Rightarrow> Ok (finish_step key (fill_stepData Map.empty (drop 1 topMap))))))"

text \<open>\<open>RawStepsConfig\<close>, a slice of pointers to steps.\<close>

type_synonym RawStepsConfig = "StepConfig option list"

definition decode_RawStepsConfig :: "string \<Rightarrow> RawStepsConfig \<Rightarrow> yaml \<Rightarrow> RawStepsConfig decoded" where
  "decode_RawStepsConfig target = decode_slice target (decode_ptr RawStepConfig_UnmarshalYAML)"

subsection \<open>Pipelines\<close>

record PipelineConfig =
  Box :: "BoxConfig option"
  Steps :: RawStepsConfig
  AfterSteps :: RawStepsConfig
  StepsMap :: "(string, RawStepsConfig) gomap"
  Services :: "BoxConfig option list"
  BasePath :: string

definition empty_PipelineConfig :: PipelineConfig where
  "empty_PipelineConfig =
     \<lparr>PipelineConfig.Box = None, Steps = [], AfterSteps = [], StepsMap = None,
      Services = [], BasePath = []\<rparr>"

definition pipelineReservedWords :: "string set" where
  "pipelineReservedWords = {''box'', ''services'', ''steps'', ''after-steps'', ''base-path''}"

text \<open>
  The keys of \<open>PipelineConfig\<close>: the tags of the struct, and the lower-case name for
  the fields without a tag (\<open>StepsMap\<close> among them).
\<close>

definition PipelineConfig_field :: "string \<Rightarrow> yaml \<Rightarrow> PipelineConfig \<Rightarrow> PipelineConfig decoded" where
  "PipelineConfig_field k v c =
     (if k = ''box'' then
        map_decoded (\<lambda>x. c\<lparr>PipelineConfig.Box := x\<rparr>) (decode_ptr RawBoxConfig_UnmarshalYAML v)
      else if k = ''steps'' then
        map_decoded (\<lambda>x. c\<lparr>Steps := x\<rparr>) (decode_RawStepsConfig ''core.RawStepsConfig'' (Steps c) v)
      else if k = ''after-steps'' then
        map_decoded (\<lambda>x. c\<lparr>AfterSteps := x\<rparr>)
          (decode_RawStepsConfig ''core.RawStepsConfig'' (AfterSteps c) v)
      else if k = ''stepsmap'' then
        map_decoded (\<lambda>x. c\<lparr>StepsMap := x\<rparr>)
          (decode_map ''map[string][]*core.RawStepConfig''
             (decode_RawStepsConfig ''[]*core.RawStepConfig'' []) (StepsMap c) v)
      else if k = ''services'' then
        map_decoded (\<lambda>x. c\<lparr>PipelineConfig.Services := x\<rparr>)
          (decode_slice ''[]*core.RawBoxConfig'' (decode_ptr RawBoxConfig_UnmarshalYAML)
             (PipelineConfig.Services c) v)
      else if k = ''base-path'' then
        map_decoded (\<lambda>x. c\<lparr>BasePath := x\<rparr>) (decode_string (BasePath c) v)
      else Decoded c True [])"

definition TrimSuffix :: "string \<Rightarrow> string \<Rightarrow> string" where
  "TrimSuffix s suf = (if suffix suf s then take (length s - length suf) s else s)"

text \<open>
  \<open>yaml.Marshal\<close> of the value a node has as an \<open>interface{}\<close>, read again: a mapping
  has become a Go map on the way, so it keeps one entry for each key, and the encoder
  writes the entries in its own order of the keys.  That order is the parameter \<open>emit\<close>.
  Scalars are written in their canonical form.
\<close>

type_synonym emitter = "(string \<times> yaml) list \<Rightarrow> (string \<times> yaml) list"

fun remarshal :: "emitter \<Rightarrow> yaml \<Rightarrow> yaml" where
  "remarshal emit YNull = YNull"
| "remarshal emit (YStr s) = YStr s"
| "remarshal emit (YInt raw v) = YInt (Itoa v) v"
| "remarshal emit (YBool raw b) = YBool (FormatBool b) b"
| "remarshal emit (YSeq xs) = YSeq (map (remarshal emit) xs)"
| "remarshal emit (YMap ps) = YMap (emit (entries (map (\<lambda>p. (fst p, remarshal emit (snd p))) ps)))"

text \<open>
  The loop over the extra keys of a pipeline.  \<open>yaml.Marshal\<close> has no error on these
  values; \<open>yaml.Unmarshal\<close> returns its error as \<open>unmarshal\<close> does.  The store into
  \<open>StepsMap\<close> panics when the map is nil.
\<close>

fun extra_steps :: "emitter \<Rightarrow> (string \<times> yaml) list \<Rightarrow> PipelineConfig \<Rightarrow> PipelineConfig result" where
  "extra_steps emit [] r = Ok r"
| "extra_steps emit ((k, v) # m) r =
     (if k \<in> pipelineReservedWords then extra_steps emit m r
      else
        (case unmarshal (decode_RawStepsConfig ''[]*core.RawStepConfig'' [] (remarshal emit v)) of
           None \<Rightarrow> Panic
         | Some (otherSteps, Some err) \<Rightarrow>
             Fail (TypeError [''Invalid extra key in pipeline, '' @ k @ '' is not a list of steps'']) r
         | Some (otherSteps, None) \<Rightarrow>
             (case StepsMap r of
                None \<Rightarrow> Panic
              | Some sm \<Rightarrow> extra_steps emit m (r\<lparr>StepsMap := Some (sm(k \<mapsto> otherSteps))\<rparr>))))"

text \<open>\<open>RawPipelineConfig.UnmarshalYAML\<close>.\<close>

definition RawPipelineConfig_UnmarshalYAML :: "emitter \<Rightarrow> yaml \<Rightarrow> PipelineConfig result" where
  "RawPipelineConfig_UnmarshalYAML emit node =
     (let r = empty_PipelineConfig\<lparr>StepsMap := Some Map.empty\<rparr> in
      case unmarshal (decode_struct ''core.PipelineConfig'' PipelineConfig_field r node) of
        None \<Rightarrow> Panic
      | Some (r1, Some err) \<Rightarrow> Fail err r1
      | Some (r1, None) \<Rightarrow>
          (let r2 = r1\<lparr>BasePath := TrimSuffix (BasePath r1) ''/''\<rparr> in
           case unmarshal (decode_map_entries ''map[string]interface {}'' (\<lambda>v. Decoded v True []) node) of
             None \<Rightarrow> Panic
           | Some (m, Some err) \<Rightarrow> Fail err r2
           | Some (m, None) \<Rightarrow> extra_steps emit m r2))"

subsection \<open>The configuration\<close>

record Config =
  Box :: "BoxConfig option"
  CommandTimeout :: int
  NoResponseTimeout :: int
  Services :: "BoxConfig option list"
  SourceDir :: string
  IgnoreFile :: string
  PipelinesMap :: "(string, PipelineConfig option) gomap"

definition empty_Config :: Config where
  "empty_Config =
     \<lparr>Config.Box = None, CommandTimeout = 0, NoResponseTimeout = 0, Services = [],
      SourceDir = [], IgnoreFile = [], PipelinesMap = None\<rparr>"

definition configReservedWords :: "string set" where
  "configReservedWords =
     {''box'', ''command-timeout'', ''no-response-timeout'', ''services'', ''source-dir''}"

definition Config_field :: "emitter \<Rightarrow> string \<Rightarrow> yaml \<Rightarrow> Config \<Rightarrow> Config decoded" where
  "Config_field emit k v c =
     (if k = ''box'' then
        map_decoded (\<lambda>x. c\<lparr>Config.Box := x\<rparr>) (decode_ptr RawBoxConfig_UnmarshalYAML v)
      else if k = ''command-timeout'' then
        map_decoded (\<lambda>x. c\<lparr>CommandTimeout := x\<rparr>) (decode_int (CommandTimeout c) v)
      else if k = ''no-response-timeout'' then
        map_decoded (\<lambda>x. c\<lparr>NoResponseTimeout := x\<rparr>) (decode_int (NoResponseTimeout c) v)
      else if k = ''services'' then
        map_decoded (\<lambda>x. c\<lparr>Config.Services := x\<rparr>)
          (decode_slice ''[]*core.RawBoxConfig'' (decode_ptr RawBoxConfig_UnmarshalYAML)
             (Config.Services c) v)
      else if k = ''source-dir'' then
        map_decoded (\<lambda>x. c\<lparr>SourceDir := x\<rparr>) (decode_string (SourceDir c) v)
      else if k = ''ignore-file'' then
        map_decoded (\<lambda>x. c\<lparr>IgnoreFile := x\<rparr>) (decode_string (IgnoreFile c) v)
      else if k = ''pipelinesmap'' then
        map_decoded (\<lambda>x. c\<lparr>PipelinesMap := x\<rparr>)
          (decode_map ''map[string]*core.RawPipelineConfig''
             (decode_ptr (RawPipelineConfig_UnmarshalYAML emit)) (PipelinesMap c) v)
      else Decoded c True [])"

text \<open>The loop over the entries of \<open>m\<close> in \<open>RawConfig.UnmarshalYAML\<close>.\<close>

fun extra_pipelines :: "(string \<times> PipelineConfig option) list \<Rightarrow> Config \<Rightarrow> Config result" where
  "extra_pipelines [] r = Ok r"
| "extra_pipelines ((k, v) # m) r =
     (if k \<in> configReservedWords then extra_pipelines m r
      else
        (case PipelinesMap r of
           None \<Rightarrow> Panic
         | Some pm \<Rightarrow> extra_pipelines m (r\<lparr>PipelinesMap := Some (pm(k \<mapsto> v))\<rparr>)))"

text \<open>
  \<open>RawConfig.UnmarshalYAML\<close>: the error of the first \<open>unmarshal\<close> is overwritten by
  the second, of which only an error that is not a type error is returned.
\<close>

definition RawConfig_UnmarshalYAML :: "emitter \<Rightarrow> yaml \<Rightarrow> Config result" where
  "RawConfig_UnmarshalYAML emit node =
     (let r = empty_Config\<lparr>PipelinesMap := Some Map.empty\<rparr> in
      case unmarshal (decode_struct ''core.Config'' (Config_field emit) r node) of
        None \<Rightarrow> Panic
      | Some (r1, _) \<Rightarrow>
          (case unmarshal
                  (decode_map_entries ''map[string]*core.RawPipelineConfig''
                     (decode_ptr (RawPipelineConfig_UnmarshalYAML emit)) node) of
             None \<Rightarrow> Panic
           | Some (m, Some (ErrorString e)) \<Rightarrow> Fail (ErrorString e) r1
           | Some (m, _) \<Rightarrow> extra_pipelines m r1))"

text \<open>\<open>RawConfig.IsValid\<close>; a \<open>RawConfig\<close> is a pointer to a \<open>Config\<close>, nil or not.\<close>

definition IsValid :: "Config option \<Rightarrow> go_error option" where
  "IsValid r = (case r of None \<Rightarrow> Some (ErrorString ''Your wercker.yml is empty.'') | Some c \<Rightarrow> None)"

text \<open>The method \<open>Error\<close> of the two kinds of error.\<close>

fun join :: "string \<Rightarrow> string list \<Rightarrow> string" where
  "join sep [] = []"
| "join sep [x] = x"
| "join sep (x # y # xs) = x @ sep @ join sep (y # xs)"

fun Error :: "go_error \<Rightarrow> string" where
  "Error (ErrorString e) = e"
| "Error (TypeError es) =
     ''yaml: unmarshal errors:'' @ newline @ ''  '' @ join (newline @ ''  '') es"

text \<open>
  What the parser of the yaml package makes of the bytes of a file: a syntax error, no
  document at all, or the root node of the document.
\<close>

datatype document = Malformed string | Empty | Doc yaml

text \<open>
  \<open>yaml.Unmarshal(file, &m)\<close> for a \<open>RawConfig\<close> \<open>m\<close> (which starts with a nil
  \<open>Config\<close>): without a document nothing is decoded, and on a null root the method is
  not called.
\<close>

definition Unmarshal_RawConfig :: "emitter \<Rightarrow> document \<Rightarrow> (Config option \<times> go_error option) option" where
  "Unmarshal_RawConfig emit file =
     (case file of
        Malformed e \<Rightarrow> Some (None, Some (ErrorString e))
      | Empty \<Rightarrow> Some (None, None)
      | Doc node \<Rightarrow> unmarshal (decode_ptr (RawConfig_UnmarshalYAML emit) node))"

text \<open>\<open>ConfigFromYaml\<close>: the configuration (nil on an error) and the error.\<close>

definition ConfigFromYaml :: "emitter \<Rightarrow> document \<Rightarrow> (Config option \<times> go_error option) outcome" where
  "ConfigFromYaml emit file =
     (case Unmarshal_RawConfig emit file of
        None \<Rightarrow> Panics
      | Some (m, err) \<Rightarrow>
          (let err' = (if err = None then IsValid m else err) in
           case err' of
             Some e \<Rightarrow>
               Returns (None,
                 Some (ErrorString (''Error parsing your wercker.yml:'' @ newline @ ''  '' @ Error e)))
           | None \<Rightarrow> Returns (m, None)))"

section \<open>Properties of the session and the command runner\<close>

lemma Send_attached:
  "ws s = Some c \<Longrightarrow> \<not> broken c \<Longrightarrow>
   Send s commands = Returns (s\<lparr>ws := Some (c\<lparr>wire := wire c @ map (\<lambda>x. x @ newline) commands\<rparr>)\<rparr>)"
proof (induction commands arbitrary: s c)
  case Nil
  then show ?case by simp
next
  case (Cons x xs)
  let ?c = "c\<lparr>wire := wire c @ [x @ newline]\<rparr>"
  have "Send s (x # xs) = Send (s\<lparr>ws := Some ?c\<rparr>) xs"
    using Cons.prems by (simp add: Message_Send_def)
  also have "\<dots> = Returns (s\<lparr>ws := Some ?c\<rparr>\<lparr>ws := Some (?c\<lparr>wire := wire ?c @ map (\<lambda>x. x @ newline) xs\<rparr>)\<rparr>)"
    using Cons.prems by (intro Cons.IH) simp_all
  finally show ?case by simp
qed

lemma Send_unattached:
  "ws s = None \<Longrightarrow> Send s commands = (if commands = [] then Returns s else Panics)"
  by (cases commands) (simp_all add: Message_Send_def)

lemma Send_broken:
  "ws s = Some c \<Longrightarrow> broken c \<Longrightarrow> Send s commands = (if commands = [] then Returns s else Exits)"
  by (cases commands) (simp_all add: Message_Send_def)

lemma recv_loop_sentinel:
  "\<forall>l \<in> set pre. \<not> prefix rand l \<Longrightarrow> prefix rand line \<Longrightarrow>
   recv_loop scan rand (pre @ line # post) recv =
     Returns (post, (case fst (scan line) of None \<Rightarrow> 0 | Some v \<Rightarrow> v), recv @ pre, snd (scan line))"
proof (induction pre arbitrary: recv)
  case Nil
  then show ?case by (cases "snd (scan line)") simp_all
next
  case (Cons l pre)
  then show ?case by simp
qed

lemma recv_loop_no_sentinel:
  "\<forall>l \<in> set lines. \<not> prefix rand l \<Longrightarrow> recv_loop scan rand lines recv = Hangs"
  by (induction lines arbitrary: recv) simp_all

text \<open>
  C1.  On an attached session whose connection takes the writes, \<open>SendChecked\<close> writes
  the caller's commands and then the one command \<open>echo <token> $?\<close>, each ended by a
  newline.  Of the lines that arrive, those before the first one that begins with the
  token are the captured output, in the order of arrival; the first line that begins
  with the token ends the loop and is the line the status is scanned from; the lines
  after it stay in the queue.  The error of the scan is the error returned, so a
  sentinel line whose status does not scan is reported and not passed off as status
  zero.
\<close>

theorem SendChecked_protocol:
  assumes "ws s = Some c" and "\<not> broken c"
    and "ch s = pre @ line # post"
    and "\<forall>l \<in> set pre. \<not> prefix rand l" and "prefix rand line"
  shows "SendChecked scan rand s commands =
     Returns
       (s\<lparr>ws := Some (c\<lparr>wire := wire c @ map (\<lambda>x. x @ newline) commands
                                     @ [''echo '' @ rand @ '' $?'' @ newline]\<rparr>),
           ch := post\<rparr>,
        (case fst (scan line) of None \<Rightarrow> 0 | Some v \<Rightarrow> v),
        pre,
        snd (scan line))"
proof -
  let ?c1 = "c\<lparr>wire := wire c @ map (\<lambda>x. x @ newline) commands\<rparr>"
  let ?s1 = "s\<lparr>ws := Some ?c1\<rparr>"
  let ?c2 = "?c1\<lparr>wire := wire ?c1 @ map (\<lambda>x. x @ newline) [''echo '' @ rand @ '' $?'']\<rparr>"
  let ?s2 = "?s1\<lparr>ws := Some ?c2\<rparr>"
  have 1: "Send s commands = Returns ?s1"
    using assms(1,2) by (rule Send_attached)
  have 2: "Send ?s1 [''echo '' @ rand @ '' $?''] = Returns ?s2"
    using assms(2) by (intro Send_attached) simp_all
  have 3: "recv_loop scan rand (ch ?s2) [] =
     Returns (post, (case fst (scan line) of None \<Rightarrow> 0 | Some v \<Rightarrow> v), [] @ pre, snd (scan line))"
    using assms(3) recv_loop_sentinel [OF assms(4,5)] by simp
  have 4: "?s2\<lparr>ch := post\<rparr> =
     s\<lparr>ws := Some (c\<lparr>wire := wire c @ map (\<lambda>x. x @ newline) commands
                                   @ [''echo '' @ rand @ '' $?'' @ newline]\<rparr>),
         ch := post\<rparr>"
    by simp
  show ?thesis
    unfolding SendChecked_def
    by (simp only: 1 2 3 4 outcome.case prod.case append_Nil)
qed

text \<open>The runner on a well-formed and on an ill-formed sentinel line.\<close>

theorem SendChecked_protocol_witness:
  "SendChecked Sscanf_token_status ''tok''
     \<lparr>wsUrl = ''u'', ws = Some \<lparr>wire = [], broken = False\<rparr>,
      ch = [''a'' @ newline, ''tok 3'' @ newline, ''z'']\<rparr> [''echo a''] =
   Returns
     (\<lparr>wsUrl = ''u'',
       ws = Some \<lparr>wire = [''echo a'' @ newline, ''echo tok $?'' @ newline], broken = False\<rparr>,
       ch = [''z'']\<rparr>, 3, [''a'' @ newline], None)
   \<and> SendChecked Sscanf_token_status ''tok''
     \<lparr>wsUrl = ''u'', ws = Some \<lparr>wire = [], broken = False\<rparr>,
      ch = [''tok oops'' @ newline]\<rparr> [] =
   Returns
     (\<lparr>wsUrl = ''u'', ws = Some \<lparr>wire = [''echo tok $?'' @ newline], broken = False\<rparr>, ch = []\<rparr>,
      0, [], Some ''expected integer'')"
proof -
  have a: "Sscanf_token_status (''tok 3'' @ newline) = (Some 3, None)"
    by code_simp
  have b: "Sscanf_token_status (''tok oops'' @ newline) = (None, Some ''expected integer'')"
    by code_simp
  have p: "prefix ''tok'' (''tok 3'' @ newline)" "prefix ''tok'' (''tok oops'' @ newline)"
    "\<not> prefix ''tok'' (''a'' @ newline)"
    by (simp_all add: newline_def)
  show ?thesis
    using
      SendChecked_protocol [of "\<lparr>wsUrl = ''u'', ws = Some \<lparr>wire = [], broken = False\<rparr>,
        ch = [''a'' @ newline, ''tok 3'' @ newline, ''z'']\<rparr>" "\<lparr>wire = [], broken = False\<rparr>"
        "[''a'' @ newline]" "''tok 3'' @ newline" "[''z'']" "''tok''" Sscanf_token_status "[''echo a'']"]
      SendChecked_protocol [of "\<lparr>wsUrl = ''u'', ws = Some \<lparr>wire = [], broken = False\<rparr>,
        ch = [''tok oops'' @ newline]\<rparr>" "\<lparr>wire = [], broken = False\<rparr>"
        "[]" "''tok oops'' @ newline" "[]" "''tok''" Sscanf_token_status "[]"]
    by (simp add: a b p del: append_Cons append_Nil)
qed

text \<open>
  C9, as stated, fails: \<open>Send\<close> has no result to report an error with.  On a session
  that is not attached it returns normally when there is no command, and panics on the
  nil connection at the first command otherwise.
\<close>

theorem Send_unattached_counterexample:
  "Send \<lparr>wsUrl = ''ws://host/containers/c1/attach/ws'', ws = None, ch = []\<rparr> [] =
     Returns \<lparr>wsUrl = ''ws://host/containers/c1/attach/ws'', ws = None, ch = []\<rparr>
   \<and> Send \<lparr>wsUrl = ''ws://host/containers/c1/attach/ws'', ws = None, ch = []\<rparr> [''ls''] = Panics"
  by (simp add: Message_Send_def)

text \<open>
  C9, amended.  After a successful \<open>Attach\<close>, and as long as the connection takes the
  writes, \<open>Send\<close> writes each command followed by a newline, in the given order, and
  returns.  On a session that is not attached \<open>Send\<close> returns no error: it panics at
  its first command, and returns at once when given none.
\<close>

theorem Send_writes_in_order:
  "(\<not> broken c \<longrightarrow>
      Send (fst (Attach (Inr c) s)) commands =
        Returns (s\<lparr>ws := Some (c\<lparr>wire := wire c @ map (\<lambda>x. x @ newline) commands\<rparr>)\<rparr>))
   \<and> (ws s = None \<longrightarrow> Send s commands = (if commands = [] then Returns s else Panics))"
proof -
  have "ws (fst (Attach (Inr c) s)) = Some c"
    by (simp add: Attach_def)
  then have "\<not> broken c \<Longrightarrow>
      Send (fst (Attach (Inr c) s)) commands =
        Returns (fst (Attach (Inr c) s)
          \<lparr>ws := Some (c\<lparr>wire := wire c @ map (\<lambda>x. x @ newline) commands\<rparr>)\<rparr>)"
    by (rule Send_attached)
  then show ?thesis
    by (simp add: Attach_def Send_unattached)
qed

theorem Send_writes_in_order_witness:
  "Send (fst (Attach (Inr \<lparr>wire = [], broken = False\<rparr>) \<lparr>wsUrl = ''u'', ws = None, ch = []\<rparr>))
        [''cd /pipeline'', ''ls''] =
     Returns \<lparr>wsUrl = ''u'',
              ws = Some \<lparr>wire = [''cd /pipeline'' @ newline, ''ls'' @ newline], broken = False\<rparr>,
              ch = []\<rparr>
   \<and> Send \<lparr>wsUrl = ''u'', ws = None, ch = []\<rparr> [''ls''] = Panics"
  using Send_writes_in_order [of "\<lparr>wire = [], broken = False\<rparr>" "\<lparr>wsUrl = ''u'', ws = None, ch = []\<rparr>"
      "[''cd /pipeline'', ''ls'']"]
    Send_writes_in_order [of c "\<lparr>wsUrl = ''u'', ws = None, ch = []\<rparr>" "[''ls'']" for c]
  by simp

section \<open>Properties of the step parser\<close>

lemma step_single_key:
  "RawStepConfig_UnmarshalYAML (YMap [(stepID, YMap params)]) =
     Ok (finish_step stepID (fill_stepData Map.empty params))"
  by (simp add: RawStepConfig_UnmarshalYAML_def unmarshal_def decode_MapSlice_def assert_MapSlice_def)

lemma step_flat:
  "params \<noteq> [] \<Longrightarrow>
   RawStepConfig_UnmarshalYAML (YMap ((stepID, v) # params)) =
     Ok (finish_step stepID (fill_stepData Map.empty params))"
  by (simp add: RawStepConfig_UnmarshalYAML_def unmarshal_def decode_MapSlice_def assert_MapSlice_def)

lemma step_bare:
  "RawStepConfig_UnmarshalYAML (YStr stepID) = Ok (empty_StepConfig\<lparr>StepConfig.ID := stepID\<rparr>)"
  by (simp add: RawStepConfig_UnmarshalYAML_def unmarshal_def decode_MapSlice_def assert_MapSlice_def)

lemma finish_step_fields:
  "StepConfig.ID (finish_step stepID stepData) = stepID"
  "Cwd (finish_step stepID stepData) = (case stepData ''cwd'' of Some v \<Rightarrow> v | None \<Rightarrow> [])"
  "StepConfig.Name (finish_step stepID stepData) = (case stepData ''name'' of Some v \<Rightarrow> v | None \<Rightarrow> [])"
  "Checkpoint (finish_step stepID stepData) = (case stepData ''checkpoint'' of Some v \<Rightarrow> v | None \<Rightarrow> [])"
  by (simp_all add: finish_step_def take_cwd_def take_name_def take_checkpoint_def
      empty_StepConfig_def split: option.splits)

lemma finish_step_Data:
  "Data (finish_step stepID stepData) = Some (stepData |` (- {''cwd'', ''name'', ''checkpoint''}))"
proof -
  have "\<exists>d. Data (finish_step stepID stepData) = Some d \<and>
          (\<forall>k. d k = (stepData |` (- {''cwd'', ''name'', ''checkpoint''})) k)"
    by (simp add: finish_step_def take_cwd_def take_name_def take_checkpoint_def
        empty_StepConfig_def restrict_map_def split: option.splits)
  then obtain d where d: "Data (finish_step stepID stepData) = Some d"
    and eq: "\<And>k. d k = (stepData |` (- {''cwd'', ''name'', ''checkpoint''})) k"
    by blast
  have "d = stepData |` (- {''cwd'', ''name'', ''checkpoint''})"
    by (rule ext) (rule eq)
  with d show ?thesis by simp
qed

lemma fill_stepData_last:
  "fill_stepData stepData items k =
     (case map_of (rev items) k of None \<Rightarrow> stepData k | Some v \<Rightarrow> Some (ifaceToString v))"
proof (induction items arbitrary: stepData)
  case Nil
  then show ?case by simp
next
  case (Cons item items)
  obtain key v where "item = (key, v)" by (cases item)
  with Cons show ?case
    by (simp add: map_add_def split: option.splits)
qed

lemma fill_stepData_empty:
  "fill_stepData Map.empty items = (\<lambda>k. map_option ifaceToString (map_of (rev items) k))"
  by (rule ext) (simp add: fill_stepData_last split: option.splits)

lemma step_many_items:
  assumes "unmarshal (decode_string [] node) = Some (s, Some err)"
    and "unmarshal (decode_MapSlice [] node) = Some ((stepID, v) # params, err')"
    and "params \<noteq> []"
  shows "RawStepConfig_UnmarshalYAML node = Ok (finish_step stepID (fill_stepData Map.empty params))"
  using assms
  by (cases params) (simp_all add: RawStepConfig_UnmarshalYAML_def empty_StepConfig_def)

lemma step_Ok_shape:
  assumes "RawStepConfig_UnmarshalYAML node = Ok st"
  shows "(\<exists>s. (\<forall>topMap. node \<noteq> YMap topMap) \<and> (\<forall>xs. node \<noteq> YSeq xs)
            \<and> st = empty_StepConfig\<lparr>StepConfig.ID := s\<rparr>)
    \<or> (\<exists>stepID params.
          (node = YMap [(stepID, YMap params)]
           \<or> (\<exists>v. params \<noteq> [] \<and> node = YMap ((stepID, v) # params))
           \<or> (\<exists>v xs err. params \<noteq> [] \<and> node = YSeq xs
                 \<and> unmarshal (decode_MapSlice [] (YSeq xs)) = Some ((stepID, v) # params, err)))
          \<and> st = finish_step stepID (fill_stepData Map.empty params))"
proof (cases node)
  case (YMap topMap)
  show ?thesis
  proof (cases topMap)
    case Nil
    with YMap assms show ?thesis
      by (simp add: RawStepConfig_UnmarshalYAML_def unmarshal_def decode_MapSlice_def)
  next
    case (Cons item rest)
    obtain key val where item: "item = (key, val)" by (cases item)
    show ?thesis
    proof (cases rest)
      case Nil
      with YMap Cons item assms show ?thesis
        by (cases val)
           (auto simp add: RawStepConfig_UnmarshalYAML_def unmarshal_def decode_MapSlice_def
              assert_MapSlice_def)
    next
      case (Cons item' rest')
      with YMap \<open>topMap = item # rest\<close> item assms show ?thesis
        by (simp add: RawStepConfig_UnmarshalYAML_def unmarshal_def decode_MapSlice_def)
    qed
  qed
next
  case (YSeq xs)
  from assms YSeq obtain topMap err where
    top: "unmarshal (decode_MapSlice [] (YSeq xs)) = Some (topMap, err)"
    by (auto simp add: RawStepConfig_UnmarshalYAML_def unmarshal_def split: option.splits)
  with assms YSeq have run:
    "(if length topMap = 1 then
        (case topMap ! 0 of
           (key, v) \<Rightarrow>
             (case assert_MapSlice (YSeq xs) v of
                Some interData \<Rightarrow> Ok (finish_step key (fill_stepData Map.empty interData))
              | None \<Rightarrow> Fail (ErrorString (''Step '' @ key @ '' is empty'')) empty_StepConfig))
      else if topMap = [] then Panic
      else (case topMap ! 0 of
              (key, _) \<Rightarrow> Ok (finish_step key (fill_stepData Map.empty (drop 1 topMap))))) = Ok st"
    by (simp add: RawStepConfig_UnmarshalYAML_def unmarshal_def)
  show ?thesis
  proof (cases topMap)
    case Nil
    with run show ?thesis by simp
  next
    case (Cons item rest)
    obtain key val where item: "item = (key, val)" by (cases item)
    show ?thesis
    proof (cases rest)
      case Nil
      with run Cons item show ?thesis by (simp add: assert_MapSlice_def)
    next
      case (Cons item' rest')
      with run \<open>topMap = item # rest\<close> item top YSeq show ?thesis
        by auto
    qed
  qed
qed (use assms in \<open>auto simp add: RawStepConfig_UnmarshalYAML_def unmarshal_def\<close>)

text \<open>
  C2, as stated, fails.  With no parameter, the flat shape is a mapping with the one key
  \<open>script\<close> and no value: it has a single entry, so it is read as the single-key
  shape, its value is not a mapping, and the parse ends with the error that the step is
  empty.  The bare string parses; it leaves \<open>Data\<close> nil, where the single-key shape
  with an empty mapping makes an empty map.
\<close>

theorem step_shapes_counterexample:
  "RawStepConfig_UnmarshalYAML (YMap [(''script'', YNull)]) =
     Fail (ErrorString ''Step script is empty'') empty_StepConfig
   \<and> RawStepConfig_UnmarshalYAML (YStr ''script'') =
     Ok \<lparr>StepConfig.ID = ''script'', Cwd = [], Name = [], Data = None, Checkpoint = []\<rparr>
   \<and> RawStepConfig_UnmarshalYAML (YMap [(''script'', YMap [])]) =
     Ok \<lparr>StepConfig.ID = ''script'', Cwd = [], Name = [], Data = Some Map.empty, Checkpoint = []\<rparr>"
  by (simp add: RawStepConfig_UnmarshalYAML_def unmarshal_def decode_MapSlice_def assert_MapSlice_def empty_StepConfig_def
      finish_step_def take_cwd_def take_name_def take_checkpoint_def)

text \<open>
  C2, amended.  For every identifier and every non-empty list of parameters, the flat
  mapping (whatever the value of its first key) and the single-key mapping parse to the
  same result, the step built from the identifier and the parameters.  The bare string
  parses to the step with that identifier, empty typed fields and nil \<open>Data\<close>; the
  single-key mapping with an empty parameter mapping to the same step with an empty
  \<open>Data\<close> map.
\<close>

theorem step_shapes_agree:
  "(params \<noteq> [] \<longrightarrow>
      RawStepConfig_UnmarshalYAML (YMap ((stepID, v) # params)) =
      RawStepConfig_UnmarshalYAML (YMap [(stepID, YMap params)]))
   \<and> RawStepConfig_UnmarshalYAML (YMap [(stepID, YMap params)]) =
       Ok (finish_step stepID (fill_stepData Map.empty params))
   \<and> RawStepConfig_UnmarshalYAML (YStr stepID) = Ok (empty_StepConfig\<lparr>StepConfig.ID := stepID\<rparr>)
   \<and> RawStepConfig_UnmarshalYAML (YMap [(stepID, YMap [])]) =
       Ok (empty_StepConfig\<lparr>StepConfig.ID := stepID, Data := Some Map.empty\<rparr>)"
proof -
  have "finish_step stepID (fill_stepData Map.empty []) =
          empty_StepConfig\<lparr>StepConfig.ID := stepID, Data := Some Map.empty\<rparr>"
    by (simp add: finish_step_def take_cwd_def take_name_def take_checkpoint_def)
  then have "RawStepConfig_UnmarshalYAML (YMap [(stepID, YMap [])]) =
       Ok (empty_StepConfig\<lparr>StepConfig.ID := stepID, Data := Some Map.empty\<rparr>)"
    by (simp only: step_single_key)
  moreover have "params \<noteq> [] \<longrightarrow>
      RawStepConfig_UnmarshalYAML (YMap ((stepID, v) # params)) =
      RawStepConfig_UnmarshalYAML (YMap [(stepID, YMap params)])"
    using step_flat [of params stepID v] by (simp only: step_single_key) blast
  ultimately show ?thesis
    using step_single_key [of stepID params] step_bare [of stepID] by blast
qed

text \<open>The flat and the single-key shape of a step with two parameters.\<close>

theorem step_shapes_agree_witness:
  "RawStepConfig_UnmarshalYAML (YMap [(''script'', YNull), (''code'', YStr ''make''), (''cwd'', YStr ''src'')]) =
   RawStepConfig_UnmarshalYAML (YMap [(''script'', YMap [(''code'', YStr ''make''), (''cwd'', YStr ''src'')])])
   \<and> RawStepConfig_UnmarshalYAML (YMap [(''script'', YMap [(''code'', YStr ''make''), (''cwd'', YStr ''src'')])]) =
   Ok \<lparr>StepConfig.ID = ''script'', Cwd = ''src'', Name = [], Data = Some [''code'' \<mapsto> ''make''],
       Checkpoint = []\<rparr>"
proof -
  have "finish_step ''script'' (fill_stepData Map.empty [(''code'', YStr ''make''), (''cwd'', YStr ''src'')]) =
     \<lparr>StepConfig.ID = ''script'', Cwd = ''src'', Name = [], Data = Some [''code'' \<mapsto> ''make''],
       Checkpoint = []\<rparr>"
    by (simp add: finish_step_def take_cwd_def take_name_def take_checkpoint_def empty_StepConfig_def)
  then show ?thesis
    using step_shapes_agree [of "[(''code'', YStr ''make''), (''cwd'', YStr ''src'')]" "''script''" YNull]
    by simp
qed

text \<open>
  C4.  A step that parses is either a scalar (or null) node, which has no parameter (the
  typed fields are empty and \<open>Data\<close> is nil), or it has a list of parameters: the
  entries of the inner mapping in the single-key shape, the entries after the first in
  the flat shape, and the items after the first when the node is a sequence that decodes
  into two or more items.  Each parameter key stands for the text \<open>ifaceToString\<close>
  makes of its last value.  Then \<open>Cwd\<close>, \<open>Name\<close> and \<open>Checkpoint\<close> hold what the
  keys \<open>cwd\<close>, \<open>name\<close> and \<open>checkpoint\<close> stand for (the empty string when absent),
  and \<open>Data\<close> is the parameter map without these three keys: none of them is left in
  it, and every other key keeps its value.
\<close>

theorem step_typed_parameters:
  assumes "RawStepConfig_UnmarshalYAML node = Ok st"
  shows "(\<exists>s. (\<forall>topMap. node \<noteq> YMap topMap) \<and> (\<forall>xs. node \<noteq> YSeq xs)
            \<and> st = empty_StepConfig\<lparr>StepConfig.ID := s\<rparr>)
    \<or> (\<exists>stepID params.
          (node = YMap [(stepID, YMap params)]
           \<or> (\<exists>v. params \<noteq> [] \<and> node = YMap ((stepID, v) # params))
           \<or> (\<exists>v xs err. params \<noteq> [] \<and> node = YSeq xs
                 \<and> unmarshal (decode_MapSlice [] (YSeq xs)) = Some ((stepID, v) # params, err)))
          \<and> (let stepData = (\<lambda>k. map_option ifaceToString (map_of (rev params) k)) in
               StepConfig.ID st = stepID
             \<and> Cwd st = (case stepData ''cwd'' of Some v \<Rightarrow> v | None \<Rightarrow> [])
             \<and> StepConfig.Name st = (case stepData ''name'' of Some v \<Rightarrow> v | None \<Rightarrow> [])
             \<and> Checkpoint st = (case stepData ''checkpoint'' of Some v \<Rightarrow> v | None \<Rightarrow> [])
             \<and> Data st = Some (stepData |` (- {''cwd'', ''name'', ''checkpoint''}))))"
proof -
  from step_Ok_shape [OF assms] consider
    (scalar) s where "\<forall>topMap. node \<noteq> YMap topMap" "\<forall>xs. node \<noteq> YSeq xs"
      "st = empty_StepConfig\<lparr>StepConfig.ID := s\<rparr>"
  | (parameters) stepID params where
      "node = YMap [(stepID, YMap params)]
           \<or> (\<exists>v. params \<noteq> [] \<and> node = YMap ((stepID, v) # params))
           \<or> (\<exists>v xs err. params \<noteq> [] \<and> node = YSeq xs
                 \<and> unmarshal (decode_MapSlice [] (YSeq xs)) = Some ((stepID, v) # params, err))"
      "st = finish_step stepID (fill_stepData Map.empty params)"
    by blast
  then show ?thesis
  proof cases
    case scalar
    then show ?thesis by blast
  next
    case parameters
    note shape = parameters(1) and st = parameters(2)
    have "node = YMap [(stepID, YMap params)]
           \<or> (\<exists>v. params \<noteq> [] \<and> node = YMap ((stepID, v) # params))
           \<or> (\<exists>v xs err. params \<noteq> [] \<and> node = YSeq xs
                 \<and> unmarshal (decode_MapSlice [] (YSeq xs)) = Some ((stepID, v) # params, err))"
      by (rule shape)
    let ?stepData = "\<lambda>k. map_option ifaceToString (map_of (rev params) k)"
    from st have "st = finish_step stepID ?stepData"
      by (simp only: fill_stepData_empty)
    then have "StepConfig.ID st = stepID
         \<and> Cwd st = (case ?stepData ''cwd'' of Some v \<Rightarrow> v | None \<Rightarrow> [])
         \<and> StepConfig.Name st = (case ?stepData ''name'' of Some v \<Rightarrow> v | None \<Rightarrow> [])
         \<and> Checkpoint st = (case ?stepData ''checkpoint'' of Some v \<Rightarrow> v | None \<Rightarrow> [])
         \<and> Data st = Some (?stepData |` (- {''cwd'', ''name'', ''checkpoint''}))"
      by (simp only: finish_step_fields finish_step_Data simp_thms)
    with shape show ?thesis
      unfolding Let_def by blast
  qed
qed

text \<open>
  A step in the single-key shape with one free and two typed parameters, one of them a
  number; and a step given as a sequence of two items.
\<close>

theorem step_typed_parameters_witness:
  "RawStepConfig_UnmarshalYAML
     (YMap [(''script'', YMap [(''code'', YStr ''make''), (''cwd'', YInt ''5'' 5), (''name'', YStr ''build it'')])]) =
   Ok \<lparr>StepConfig.ID = ''script'', Cwd = ''5'', Name = ''build it'',
       Data = Some [''code'' \<mapsto> ''make''], Checkpoint = []\<rparr>
   \<and> RawStepConfig_UnmarshalYAML
     (YSeq [YMap [(''key'', YStr ''a'')], YMap [(''key'', YStr ''b''), (''value'', YInt ''1'' 1)]]) =
   Ok \<lparr>StepConfig.ID = ''a'', Cwd = [], Name = [], Data = Some [''b'' \<mapsto> ''1''], Checkpoint = []\<rparr>"
proof -
  let ?node = "YMap [(''script'', YMap [(''code'', YStr ''make''), (''cwd'', YInt ''5'' 5), (''name'', YStr ''build it'')])]"
  let ?seq = "YSeq [YMap [(''key'', YStr ''a'')], YMap [(''key'', YStr ''b''), (''value'', YInt ''1'' 1)]]"
  have five: "Itoa 5 = ''5''" and one: "Itoa 1 = ''1''"
    by code_simp+
  have fits: "int_fits 5" "int_fits 1"
    by (simp_all add: int_fits_def)
  obtain st where st: "RawStepConfig_UnmarshalYAML ?node = Ok st"
    by (simp add: RawStepConfig_UnmarshalYAML_def unmarshal_def decode_MapSlice_def assert_MapSlice_def)
  have items: "unmarshal (decode_MapSlice [] ?seq) = Some ([(''a'', YNull), (''b'', YInt ''1'' 1)], None)"
    by (simp add: unmarshal_def decode_MapSlice_def decode_MapItem_def decode_struct_def
        MapItem_field_def decoded.map)
  then obtain st' where st': "RawStepConfig_UnmarshalYAML ?seq = Ok st'"
    by (simp add: RawStepConfig_UnmarshalYAML_def unmarshal_def)
  let ?P = "[(''code'', YStr ''make''), (''cwd'', YInt ''5'' 5), (''name'', YStr ''build it'')]"
  let ?Q = "[(''b'', YInt ''1'' 1)]"
  have m: "(\<lambda>k. map_option ifaceToString (map_of (rev ?P) k)) =
           [''cwd'' \<mapsto> ''5'', ''code'' \<mapsto> ''make'', ''name'' \<mapsto> ''build it'']"
    "(\<lambda>k. map_option ifaceToString (map_of (rev ?Q) k)) = [''b'' \<mapsto> ''1'']"
    by (rule ext, simp add: five one fits)+
  have d: "[''cwd'' \<mapsto> ''5'', ''code'' \<mapsto> ''make'', ''name'' \<mapsto> ''build it'']
             |` (- {''cwd'', ''name'', ''checkpoint''}) = [''code'' \<mapsto> ''make'']"
    "[''b'' \<mapsto> ''1''] |` (- {''cwd'', ''name'', ''checkpoint''}) = [''b'' \<mapsto> ''1'']"
    by (rule ext, simp add: restrict_map_def)+
  from step_typed_parameters [OF st] obtain stepID params where
    sh: "?node = YMap [(stepID, YMap params)]
           \<or> (\<exists>v. params \<noteq> [] \<and> ?node = YMap ((stepID, v) # params))
           \<or> (\<exists>v xs err. params \<noteq> [] \<and> ?node = YSeq xs
                 \<and> unmarshal (decode_MapSlice [] (YSeq xs)) = Some ((stepID, v) # params, err))"
    and props: "StepConfig.ID st = stepID
       \<and> Cwd st = (case (\<lambda>k. map_option ifaceToString (map_of (rev params) k)) ''cwd'' of Some v \<Rightarrow> v | None \<Rightarrow> [])
       \<and> StepConfig.Name st = (case (\<lambda>k. map_option ifaceToString (map_of (rev params) k)) ''name'' of Some v \<Rightarrow> v | None \<Rightarrow> [])
       \<and> Checkpoint st = (case (\<lambda>k. map_option ifaceToString (map_of (rev params) k)) ''checkpoint'' of Some v \<Rightarrow> v | None \<Rightarrow> [])
       \<and> Data st = Some ((\<lambda>k. map_option ifaceToString (map_of (rev params) k)) |` (- {''cwd'', ''name'', ''checkpoint''}))"
    unfolding Let_def by blast
  from sh have eq: "stepID = ''script''" "params = ?P"
    by auto
  have "st = \<lparr>StepConfig.ID = ''script'', Cwd = ''5'', Name = ''build it'',
              Data = Some [''code'' \<mapsto> ''make''], Checkpoint = []\<rparr>"
    using props [unfolded eq m d] by (cases st) (simp add: five one fits)
  moreover
  from step_typed_parameters [OF st'] obtain stepID' params' where
    sh': "?seq = YMap [(stepID', YMap params')]
           \<or> (\<exists>v. params' \<noteq> [] \<and> ?seq = YMap ((stepID', v) # params'))
           \<or> (\<exists>v xs err. params' \<noteq> [] \<and> ?seq = YSeq xs
                 \<and> unmarshal (decode_MapSlice [] (YSeq xs)) = Some ((stepID', v) # params', err))"
    and props': "StepConfig.ID st' = stepID'
       \<and> Cwd st' = (case (\<lambda>k. map_option ifaceToString (map_of (rev params') k)) ''cwd'' of Some v \<Rightarrow> v | None \<Rightarrow> [])
       \<and> StepConfig.Name st' = (case (\<lambda>k. map_option ifaceToString (map_of (rev params') k)) ''name'' of Some v \<Rightarrow> v | None \<Rightarrow> [])
       \<and> Checkpoint st' = (case (\<lambda>k. map_option ifaceToString (map_of (rev params') k)) ''checkpoint'' of Some v \<Rightarrow> v | None \<Rightarrow> [])
       \<and> Data st' = Some ((\<lambda>k. map_option ifaceToString (map_of (rev params') k)) |` (- {''cwd'', ''name'', ''checkpoint''}))"
    unfolding Let_def by blast
  from sh' items have eq': "stepID' = ''a''" "params' = ?Q"
    by auto
  have "st' = \<lparr>StepConfig.ID = ''a'', Cwd = [], Name = [], Data = Some [''b'' \<mapsto> ''1''], Checkpoint = []\<rparr>"
    using props' [unfolded eq' m d] by (cases st') (simp add: five one fits)
  ultimately show ?thesis
    using st st' by simp
qed

text \<open>
  C10.  The claim asks for an error; the code panics.  On a sequence of scalars both
  attempts to decode fail, the second error is dropped, \<open>topMap\<close> is empty and
  \<open>topMap[0]\<close> is read; the same happens on an empty mapping.
\<close>

theorem step_parse_panics:
  "RawStepConfig_UnmarshalYAML (YSeq [YStr ''a'', YStr ''b'']) = Panic
   \<and> RawStepConfig_UnmarshalYAML (YMap []) = Panic"
  by (simp add: RawStepConfig_UnmarshalYAML_def unmarshal_def decode_MapSlice_def assert_MapSlice_def
      decode_MapItem_def decode_struct_def cannot_def)

section \<open>Properties of the box parser\<close>

lemma map_decoded_eq_Decoded [simp]:
  "map_decoded f d = Decoded y good es \<longleftrightarrow> (\<exists>x. d = Decoded x good es \<and> y = f x)"
  by (cases d) auto

lemma decode_string_taken:
  "decode_string old v = Decoded s good [] \<Longrightarrow> decode_string old' v = Decoded s True []"
  by (cases v) simp_all

lemma decode_fields_last:
  assumes "decode_fields fld ps r = Decoded r' good []"
    and keep: "\<And>k v c c' g es. k \<noteq> key \<Longrightarrow> fld k v c = Decoded c' g es \<Longrightarrow> sel c' = sel c"
    and put: "\<And>v c c' g. fld key v c = Decoded c' g [] \<Longrightarrow> P v (sel c')"
  shows "case map_of (rev ps) key of None \<Rightarrow> sel r' = sel r | Some v \<Rightarrow> P v (sel r')"
  using assms(1)
proof (induction ps arbitrary: r good)
  case Nil
  then show ?case by simp
next
  case (Cons p ps)
  obtain k v where p: "p = (k, v)" by (cases p)
  from Cons.prems p obtain r1 g1 g2 where
    1: "fld k v r = Decoded r1 g1 []" and 2: "decode_fields fld ps r1 = Decoded r' g2 []"
    by (auto split: decoded.splits)
  note IH = Cons.IH [OF 2]
  show ?case
  proof (cases "map_of (rev ps) key")
    case (Some v')
    with IH p show ?thesis by (simp add: map_add_def)
  next
    case None
    with IH have eq: "sel r' = sel r1" by simp
    show ?thesis
    proof (cases "k = key")
      case True
      with 1 have "P v (sel r1)" by (auto intro: put)
      with None True p eq show ?thesis by (simp add: map_add_def)
    next
      case False
      with 1 have "sel r1 = sel r" by (auto intro: keep)
      with None False p eq show ?thesis by (simp add: map_add_def)
    qed
  qed
qed

lemma BoxConfig_field_other:
  "k \<noteq> ''id'' \<Longrightarrow> BoxConfig_field k v c = Decoded c' g es \<Longrightarrow> BoxConfig.ID c' = BoxConfig.ID c"
  by (auto simp add: BoxConfig_field_def split: if_splits)

lemma BoxConfig_field_id:
  "BoxConfig_field ''id'' v c = Decoded c' g [] \<Longrightarrow> decode_string [] v = Decoded (BoxConfig.ID c') True []"
  by (auto simp add: BoxConfig_field_def dest: decode_string_taken)

lemma box_bare:
  "RawBoxConfig_UnmarshalYAML (YStr s) = Ok (empty_BoxConfig\<lparr>BoxConfig.ID := s\<rparr>)"
  by (simp add: RawBoxConfig_UnmarshalYAML_def unmarshal_def)

lemma box_mapping:
  assumes "RawBoxConfig_UnmarshalYAML (YMap ps) = Ok b"
  shows "case map_of (rev ps) ''id'' of
           None \<Rightarrow> BoxConfig.ID b = []
         | Some v \<Rightarrow> decode_string [] v = Decoded (BoxConfig.ID b) True []"
proof -
  from assms obtain good where
    "decode_fields BoxConfig_field ps empty_BoxConfig = Decoded b good []"
    by (auto simp add: RawBoxConfig_UnmarshalYAML_def unmarshal_def decode_struct_def
        split: decoded.splits if_splits)
  then have "case map_of (rev ps) ''id'' of
      None \<Rightarrow> BoxConfig.ID b = BoxConfig.ID empty_BoxConfig
    | Some v \<Rightarrow> decode_string [] v = Decoded (BoxConfig.ID b) True []"
  proof (rule decode_fields_last)
    fix k v c c' g es
    assume "k \<noteq> ''id''" and "BoxConfig_field k v c = Decoded c' g es"
    then show "BoxConfig.ID c' = BoxConfig.ID c" by (rule BoxConfig_field_other)
  next
    fix v c c' g
    assume "BoxConfig_field ''id'' v c = Decoded c' g []"
    then show "decode_string [] v = Decoded (BoxConfig.ID c') True []" by (rule BoxConfig_field_id)
  qed
  then show ?thesis by (simp add: empty_BoxConfig_def split: option.splits)
qed

text \<open>
  C7, as stated, fails: a box given as a mapping without the key \<open>id\<close> parses, and its
  \<open>ID\<close> is empty.
\<close>

theorem box_empty_ID_counterexample:
  "RawBoxConfig_UnmarshalYAML (YMap [(''name'', YStr ''ubuntu''), (''tag'', YStr ''latest'')]) =
     Ok \<lparr>BoxConfig.ID = [], Name = ''ubuntu'', Tag = ''latest'', Cmd = [], Env = None, Ports = [],
         Username = [], Password = [], Registry = [], Entrypoint = [], URL = [], Volumes = []\<rparr>"
  by (simp add: RawBoxConfig_UnmarshalYAML_def unmarshal_def decode_struct_def BoxConfig_field_def
      empty_BoxConfig_def)

text \<open>
  C7, amended.  A box given as a bare string parses to the box whose \<open>ID\<close> is that
  string, all other fields at their defaults.  A box given as a mapping that parses has
  as \<open>ID\<close> what the last entry for the key \<open>id\<close> decodes to as a string, and the
  empty string when the mapping has no such entry.
\<close>

theorem box_ID:
  "RawBoxConfig_UnmarshalYAML (YStr s) = Ok (empty_BoxConfig\<lparr>BoxConfig.ID := s\<rparr>)
   \<and> (RawBoxConfig_UnmarshalYAML (YMap ps) = Ok b \<longrightarrow>
        (case map_of (rev ps) ''id'' of
           None \<Rightarrow> BoxConfig.ID b = []
         | Some v \<Rightarrow> decode_string [] v = Decoded (BoxConfig.ID b) True []))"
  using box_bare box_mapping by blast

text \<open>A box in the structured shape, with an identifier.\<close>

theorem box_ID_witness:
  "RawBoxConfig_UnmarshalYAML (YMap [(''id'', YStr ''ubuntu''), (''tag'', YStr ''latest'')]) =
     Ok \<lparr>BoxConfig.ID = ''ubuntu'', Name = [], Tag = ''latest'', Cmd = [], Env = None, Ports = [],
         Username = [], Password = [], Registry = [], Entrypoint = [], URL = [], Volumes = []\<rparr>
   \<and> decode_string [] (YStr ''ubuntu'') = Decoded ''ubuntu'' True []"
proof -
  let ?b = "\<lparr>BoxConfig.ID = ''ubuntu'', Name = [], Tag = ''latest'', Cmd = [], Env = None, Ports = [],
         Username = [], Password = [], Registry = [], Entrypoint = [], URL = [], Volumes = []\<rparr>"
  have ok: "RawBoxConfig_UnmarshalYAML (YMap [(''id'', YStr ''ubuntu''), (''tag'', YStr ''latest'')]) = Ok ?b"
    by (simp add: RawBoxConfig_UnmarshalYAML_def unmarshal_def decode_struct_def BoxConfig_field_def
        empty_BoxConfig_def)
  with box_ID [of s "[(''id'', YStr ''ubuntu''), (''tag'', YStr ''latest'')]" ?b for s]
  show ?thesis by simp
qed

section \<open>Properties of the pipeline parser\<close>

lemma entries_subset: "set (entries ps) \<subseteq> set ps"
  by (induction ps rule: entries.induct) auto

lemma entries_keys: "fst ` set (entries ps) = fst ` set ps"
  by (induction ps rule: entries.induct) (auto simp add: rev_image_eqI)

lemma entries_distinct: "distinct (map fst (entries ps))"
  by (induction ps rule: entries.induct) (auto simp add: entries_keys)

lemma decode_pairs_generic: "decode_pairs (\<lambda>v. Decoded v True []) ps = Decoded ps True []"
  by (induction ps) auto

lemma extra_steps_cases:
  assumes "distinct (map fst m)" and "StepsMap r = Some sm0"
  shows "extra_steps emit m r = Panic
    \<or> (\<exists>k v x e r'. (k, v) \<in> set m \<and> k \<notin> pipelineReservedWords
          \<and> unmarshal (decode_RawStepsConfig ''[]*core.RawStepConfig'' [] (remarshal emit v)) = Some (x, Some e)
          \<and> extra_steps emit m r =
              Fail (TypeError [''Invalid extra key in pipeline, '' @ k @ '' is not a list of steps'']) r')
    \<or> (\<exists>p sm. extra_steps emit m r = Ok p \<and> StepsMap p = Some sm \<and> BasePath p = BasePath r
          \<and> (\<forall>(k, v) \<in> set m. k \<notin> pipelineReservedWords \<longrightarrow>
                (\<exists>x. unmarshal (decode_RawStepsConfig ''[]*core.RawStepConfig'' [] (remarshal emit v)) = Some (x, None)
                     \<and> sm k = Some x))
          \<and> (\<forall>k. k \<notin> fst ` set m - pipelineReservedWords \<longrightarrow> sm k = sm0 k))"
  using assms
proof (induction m arbitrary: r sm0)
  case Nil
  then show ?case by simp
next
  case (Cons kv m)
  obtain k v where kv: "kv = (k, v)" by (cases kv)
  from Cons.prems kv have dist: "distinct (map fst m)" and fresh: "k \<notin> fst ` set m"
    by auto
  show ?case
  proof (cases "k \<in> pipelineReservedWords")
    case True
    from Cons.IH [OF dist Cons.prems(2)] True kv fresh show ?thesis
      by (elim disjE exE conjE) (simp, fastforce, fastforce)
  next
    case False
    let ?d = "unmarshal (decode_RawStepsConfig ''[]*core.RawStepConfig'' [] (remarshal emit v))"
    show ?thesis
    proof (cases ?d)
      case None
      with False kv show ?thesis by simp
    next
      case (Some xe)
      obtain x e where xe: "xe = (x, e)" by (cases xe)
      show ?thesis
      proof (cases e)
        case (Some err)
        with \<open>?d = Some xe\<close> xe False kv show ?thesis
          by (intro disjI2 disjI1) auto
      next
        case None
        let ?r = "r\<lparr>StepsMap := Some (sm0(k \<mapsto> x))\<rparr>"
        have step: "extra_steps emit (kv # m) r = extra_steps emit m ?r"
          using \<open>?d = Some xe\<close> xe None False kv Cons.prems(2) by simp
        have sm: "StepsMap ?r = Some (sm0(k \<mapsto> x))" by simp
        from Cons.IH [OF dist sm]
        show ?thesis
        proof (elim disjE exE conjE)
          assume "extra_steps emit m ?r = Panic"
          with step show ?thesis by simp
        next
          fix k' v' x' e' r'
          assume "(k', v') \<in> set m" "k' \<notin> pipelineReservedWords"
            "unmarshal (decode_RawStepsConfig ''[]*core.RawStepConfig'' [] (remarshal emit v')) = Some (x', Some e')"
            "extra_steps emit m ?r =
               Fail (TypeError [''Invalid extra key in pipeline, '' @ k' @ '' is not a list of steps'']) r'"
          with step kv show ?thesis
            by (intro disjI2 disjI1) auto
        next
          fix p sm
          assume p: "extra_steps emit m ?r = Ok p" "StepsMap p = Some sm" "BasePath p = BasePath ?r"
            and all: "\<forall>(k, v) \<in> set m. k \<notin> pipelineReservedWords \<longrightarrow>
                (\<exists>x. unmarshal (decode_RawStepsConfig ''[]*core.RawStepConfig'' [] (remarshal emit v)) = Some (x, None)
                     \<and> sm k = Some x)"
            and rest: "\<forall>k'. k' \<notin> fst ` set m - pipelineReservedWords \<longrightarrow> sm k' = (sm0(k \<mapsto> x)) k'"
          from rest fresh have "sm k = Some x" by simp
          moreover from rest have "\<forall>k'. k' \<notin> fst ` set (kv # m) - pipelineReservedWords \<longrightarrow> sm k' = sm0 k'"
            using kv False by auto
          ultimately show ?thesis
            using step p all kv \<open>?d = Some xe\<close> xe None
            by (intro disjI2) auto
        qed
      qed
    qed
  qed
qed

lemma PipelineConfig_field_other:
  "k \<noteq> ''base-path'' \<Longrightarrow> PipelineConfig_field k v c = Decoded c' g es \<Longrightarrow> BasePath c' = BasePath c"
  by (auto simp add: PipelineConfig_field_def split: if_splits)

lemma PipelineConfig_field_base_path:
  "PipelineConfig_field ''base-path'' v c = Decoded c' g [] \<Longrightarrow>
   decode_string [] v = Decoded (BasePath c') True []"
  by (auto simp add: PipelineConfig_field_def dest: decode_string_taken)

lemma TrimSuffix_slash:
  "TrimSuffix s ''/'' = (if s \<noteq> [] \<and> last s = CHR ''/'' then butlast s else s)"
proof (cases s rule: rev_cases)
  case Nil
  then show ?thesis by (simp add: TrimSuffix_def)
next
  case (snoc xs x)
  then show ?thesis by (auto simp add: TrimSuffix_def suffix_def)
qed

text \<open>The method on a mapping whose typed fields decode: the loop runs on the entries.\<close>

lemma pipeline_typed_ok:
  assumes "unmarshal (decode_struct ''core.PipelineConfig'' PipelineConfig_field
             (empty_PipelineConfig\<lparr>StepsMap := Some Map.empty\<rparr>) (YMap ps)) = Some (r1, None)"
  shows "RawPipelineConfig_UnmarshalYAML emit (YMap ps) =
           extra_steps emit (entries ps) (r1\<lparr>BasePath := TrimSuffix (BasePath r1) ''/''\<rparr>)"
  using assms
  by (simp add: RawPipelineConfig_UnmarshalYAML_def decode_map_entries_def decode_pairs_generic
      unmarshal_def decoded.map)

lemma pipeline_Ok_typed:
  assumes "RawPipelineConfig_UnmarshalYAML emit node = Ok p"
  shows "\<exists>ps r1 good. node = YMap ps
     \<and> decode_fields PipelineConfig_field ps (empty_PipelineConfig\<lparr>StepsMap := Some Map.empty\<rparr>) = Decoded r1 good []
     \<and> extra_steps emit (entries ps) (r1\<lparr>BasePath := TrimSuffix (BasePath r1) ''/''\<rparr>) = Ok p"
proof (cases node)
  case (YMap ps)
  let ?r = "empty_PipelineConfig\<lparr>StepsMap := Some Map.empty\<rparr>"
  from assms YMap obtain r1 where
    t: "unmarshal (decode_struct ''core.PipelineConfig'' PipelineConfig_field ?r (YMap ps)) = Some (r1, None)"
    by (auto simp add: RawPipelineConfig_UnmarshalYAML_def Let_def split: option.splits)
  then obtain good where "decode_fields PipelineConfig_field ps ?r = Decoded r1 good []"
    by (auto simp add: unmarshal_def decode_struct_def split: decoded.splits if_splits)
  with pipeline_typed_ok [OF t, of emit] assms YMap show ?thesis by simp
qed (use assms in \<open>simp_all add: RawPipelineConfig_UnmarshalYAML_def decode_struct_def unmarshal_def\<close>)

lemma extra_steps_outcome:
  "(extra_steps emit m r = Panic
      \<and> (StepsMap r = None
         \<or> (\<exists>(k, v) \<in> set m. k \<notin> pipelineReservedWords
               \<and> unmarshal (decode_RawStepsConfig ''[]*core.RawStepConfig'' [] (remarshal emit v)) = None)))
    \<or> (\<exists>k v x e r'. (k, v) \<in> set m \<and> k \<notin> pipelineReservedWords
          \<and> unmarshal (decode_RawStepsConfig ''[]*core.RawStepConfig'' [] (remarshal emit v)) = Some (x, Some e)
          \<and> extra_steps emit m r =
              Fail (TypeError [''Invalid extra key in pipeline, '' @ k @ '' is not a list of steps'']) r')
    \<or> (\<exists>p. extra_steps emit m r = Ok p \<and> BasePath p = BasePath r
          \<and> (\<forall>(k, v) \<in> set m. k \<notin> pipelineReservedWords \<longrightarrow>
                (\<exists>x. unmarshal (decode_RawStepsConfig ''[]*core.RawStepConfig'' [] (remarshal emit v)) = Some (x, None))))"
proof (induction m arbitrary: r)
  case Nil
  then show ?case by simp
next
  case (Cons kv m)
  obtain k v where kv: "kv = (k, v)" by (cases kv)
  let ?steps = "\<lambda>v. unmarshal (decode_RawStepsConfig ''[]*core.RawStepConfig'' [] (remarshal emit v))"
  show ?case
  proof (cases "k \<in> pipelineReservedWords")
    case True
    then have step: "extra_steps emit (kv # m) r = extra_steps emit m r"
      using kv by simp
    from Cons.IH [of r] show ?thesis
    proof (elim disjE exE conjE)
      assume "extra_steps emit m r = Panic" "StepsMap r = None"
      with step show ?thesis by simp
    next
      assume "extra_steps emit m r = Panic"
        "\<exists>(k, v) \<in> set m. k \<notin> pipelineReservedWords \<and> ?steps v = None"
      with step show ?thesis by (intro disjI1) auto
    next
      fix k' v' x' e' r'
      assume "(k', v') \<in> set m" "k' \<notin> pipelineReservedWords"
        "?steps v' = Some (x', Some e')"
        "extra_steps emit m r =
           Fail (TypeError [''Invalid extra key in pipeline, '' @ k' @ '' is not a list of steps'']) r'"
      with step show ?thesis
        by (intro disjI2 disjI1) auto
    next
      fix p
      assume "extra_steps emit m r = Ok p" "BasePath p = BasePath r"
        "\<forall>(k, v) \<in> set m. k \<notin> pipelineReservedWords \<longrightarrow> (\<exists>x. ?steps v = Some (x, None))"
      with step kv True show ?thesis
        by (intro disjI2) auto
    qed
  next
    case False
    show ?thesis
    proof (cases "?steps v")
      case None
      with False kv have "extra_steps emit (kv # m) r = Panic"
        by simp
      moreover from None False kv
      have "\<exists>(k, v) \<in> set (kv # m). k \<notin> pipelineReservedWords \<and> ?steps v = None"
        by simp
      ultimately show ?thesis by blast
    next
      case (Some xe)
      obtain x e where xe: "xe = (x, e)" by (cases xe)
      show ?thesis
      proof (cases e)
        case (Some err)
        with \<open>?steps v = Some xe\<close> xe False kv show ?thesis
          by (intro disjI2 disjI1) auto
      next
        case None
        note ok = \<open>?steps v = Some xe\<close> xe None
        show ?thesis
        proof (cases "StepsMap r")
          case None
          with ok False kv show ?thesis by simp
        next
          case (Some sm0)
          let ?r = "r\<lparr>StepsMap := Some (sm0(k \<mapsto> x))\<rparr>"
          have step: "extra_steps emit (kv # m) r = extra_steps emit m ?r"
            using ok False kv Some by simp
          from Cons.IH [of ?r] show ?thesis
          proof (elim disjE exE conjE)
            assume "extra_steps emit m ?r = Panic" "StepsMap ?r = None"
            then show ?thesis by simp
          next
            assume "extra_steps emit m ?r = Panic"
              "\<exists>(k, v) \<in> set m. k \<notin> pipelineReservedWords \<and> ?steps v = None"
            with step show ?thesis by (intro disjI1) auto
          next
            fix k' v' x' e' r'
            assume "(k', v') \<in> set m" "k' \<notin> pipelineReservedWords"
              "?steps v' = Some (x', Some e')"
              "extra_steps emit m ?r =
                 Fail (TypeError [''Invalid extra key in pipeline, '' @ k' @ '' is not a list of steps'']) r'"
            with step kv show ?thesis
              by (intro disjI2 disjI1) auto
          next
            fix p
            assume "extra_steps emit m ?r = Ok p" "BasePath p = BasePath ?r"
              "\<forall>(k, v) \<in> set m. k \<notin> pipelineReservedWords \<longrightarrow> (\<exists>x. ?steps v = Some (x, None))"
            with step kv ok show ?thesis
              by (intro disjI2) auto
          qed
        qed
      qed
    qed
  qed
qed

text \<open>
  C8, as stated, fails: \<open>strings.TrimSuffix\<close> removes one separator, so a base path
  that ends in two of them still ends in one after the parse.
\<close>

theorem BasePath_counterexample:
  "RawPipelineConfig_UnmarshalYAML (\<lambda>ps. ps) (YMap [(''base-path'', YStr ''app//'')]) =
     Ok \<lparr>PipelineConfig.Box = None, Steps = [], AfterSteps = [], StepsMap = Some Map.empty,
         Services = [], BasePath = ''app/''\<rparr>"
  by (simp add: RawPipelineConfig_UnmarshalYAML_def unmarshal_def decode_struct_def
      PipelineConfig_field_def empty_PipelineConfig_def decode_map_entries_def TrimSuffix_def
      pipelineReservedWords_def suffix_def)

text \<open>
  C8, amended.  A pipeline that parses is a mapping.  Its \<open>BasePath\<close> is empty when the
  mapping has no entry for \<open>base-path\<close>; otherwise it is the string the last such
  entry decodes to, without its last character when that is the separator: one trailing
  separator is removed, so \<open>app/\<close> gives \<open>app\<close>.
\<close>

theorem BasePath_one_separator_stripped:
  assumes "RawPipelineConfig_UnmarshalYAML emit node = Ok p"
  shows "\<exists>ps. node = YMap ps \<and>
    (case map_of (rev ps) ''base-path'' of
       None \<Rightarrow> BasePath p = []
     | Some v \<Rightarrow>
         (\<exists>s. decode_string [] v = Decoded s True []
            \<and> BasePath p = (if s \<noteq> [] \<and> last s = CHR ''/'' then butlast s else s)))"
proof -
  let ?r = "empty_PipelineConfig\<lparr>StepsMap := Some Map.empty\<rparr>"
  from pipeline_Ok_typed [OF assms] obtain ps r1 good where
    node: "node = YMap ps"
    and typed: "decode_fields PipelineConfig_field ps ?r = Decoded r1 good []"
    and loop: "extra_steps emit (entries ps) (r1\<lparr>BasePath := TrimSuffix (BasePath r1) ''/''\<rparr>) = Ok p"
    by blast
  from typed have "case map_of (rev ps) ''base-path'' of
      None \<Rightarrow> BasePath r1 = BasePath ?r
    | Some v \<Rightarrow> decode_string [] v = Decoded (BasePath r1) True []"
  proof (rule decode_fields_last)
    fix k v c c' g es
    assume "k \<noteq> ''base-path''" and "PipelineConfig_field k v c = Decoded c' g es"
    then show "BasePath c' = BasePath c" by (rule PipelineConfig_field_other)
  next
    fix v c c' g
    assume "PipelineConfig_field ''base-path'' v c = Decoded c' g []"
    then show "decode_string [] v = Decoded (BasePath c') True []"
      by (rule PipelineConfig_field_base_path)
  qed
  moreover from extra_steps_outcome [of emit "entries ps" "r1\<lparr>BasePath := TrimSuffix (BasePath r1) ''/''\<rparr>"] loop
  have "BasePath p = TrimSuffix (BasePath r1) ''/''"
    by auto
  ultimately show ?thesis
    using node by (auto simp add: TrimSuffix_slash empty_PipelineConfig_def split: option.splits)
qed

text \<open>The base path of the specification.\<close>

theorem BasePath_one_separator_stripped_witness:
  "RawPipelineConfig_UnmarshalYAML (\<lambda>ps. ps) (YMap [(''base-path'', YStr ''app/'')]) =
     Ok \<lparr>PipelineConfig.Box = None, Steps = [], AfterSteps = [], StepsMap = Some Map.empty,
         Services = [], BasePath = ''app''\<rparr>"
proof -
  obtain p where p: "RawPipelineConfig_UnmarshalYAML (\<lambda>ps. ps) (YMap [(''base-path'', YStr ''app/'')]) = Ok p"
    and rest: "p = \<lparr>PipelineConfig.Box = None, Steps = [], AfterSteps = [], StepsMap = Some Map.empty,
         Services = [], BasePath = BasePath p\<rparr>"
    by (simp add: RawPipelineConfig_UnmarshalYAML_def unmarshal_def decode_struct_def
      PipelineConfig_field_def empty_PipelineConfig_def decode_map_entries_def
      pipelineReservedWords_def)
  from BasePath_one_separator_stripped [OF p] have "BasePath p = ''app''"
    by simp
  with p rest show ?thesis by simp
qed

section \<open>Properties of the configuration parser\<close>

lemma decode_string_Decoded: "\<exists>s good es. decode_string old v = Decoded s good es"
  by (cases v) auto

lemma decode_int_Decoded: "\<exists>i good es. decode_int old v = Decoded i good es"
  by (cases v) auto

lemma decode_elems_Decoded:
  assumes "\<And>x. x \<in> set xs \<Longrightarrow> \<exists>v good es. elem x = Decoded v good es"
  shows "\<exists>vs es. decode_elems elem xs = Decoded vs True es"
  using assms
proof (induction xs)
  case Nil
  then show ?case by simp
next
  case (Cons x xs)
  from Cons.prems obtain v good es where "elem x = Decoded v good es" by fastforce
  moreover from Cons obtain vs es' where "decode_elems elem xs = Decoded vs True es'" by fastforce
  ultimately show ?case by simp
qed

lemma decode_slice_Decoded:
  assumes "\<And>x. \<exists>v good es. elem x = Decoded v good es"
  shows "\<exists>vs good es. decode_slice target elem old node = Decoded vs good es"
proof (cases node)
  case (YSeq xs)
  from decode_elems_Decoded [of xs elem] assms YSeq show ?thesis
    by (simp add: decode_slice_def) blast
qed (auto simp add: decode_slice_def)

lemma decode_pairs_Decoded:
  assumes "\<And>k v. (k, v) \<in> set ps \<Longrightarrow> \<exists>x good es. elem v = Decoded x good es"
  shows "\<exists>xs es. decode_pairs elem ps = Decoded xs True es
     \<and> fst ` set xs = {k. \<exists>v x es. (k, v) \<in> set ps \<and> elem v = Decoded x True es}"
  using assms
proof (induction ps)
  case Nil
  then show ?case by simp
next
  case (Cons p ps)
  obtain k v where p: "p = (k, v)" by (cases p)
  from Cons.prems p obtain x good es where x: "elem v = Decoded x good es" by fastforce
  from Cons obtain xs es' where xs: "decode_pairs elem ps = Decoded xs True es'"
    and keys: "fst ` set xs = {k. \<exists>v x es. (k, v) \<in> set ps \<and> elem v = Decoded x True es}"
    by fastforce
  have run: "decode_pairs elem (p # ps) = Decoded ((if good then [(k, x)] else []) @ xs) True (es @ es')"
    using p x xs by simp
  have "fst ` set ((if good then [(k, x)] else []) @ xs) =
      {k'. \<exists>v' x' es. (k', v') \<in> set (p # ps) \<and> elem v' = Decoded x' True es}"
  proof (cases good)
    case True
    with x p keys show ?thesis by auto
  next
    case False
    with x p keys show ?thesis by auto
  qed
  with run show ?case by blast
qed

lemma decode_map_Decoded:
  assumes "\<And>x. \<exists>v good es. elem x = Decoded v good es"
  shows "\<exists>m good es. decode_map target elem old node = Decoded m good es"
proof (cases node)
  case (YMap ps)
  from decode_pairs_Decoded [of ps elem] assms obtain xs es where
    "decode_pairs elem ps = Decoded xs True es" by blast
  with YMap have "decode_map target elem old node = Decoded (store old xs) True es"
    by (simp add: decode_map_def decoded.map)
  then show ?thesis by blast
qed (auto simp add: decode_map_def)

lemma decode_fields_Decoded:
  assumes "\<And>k v c. (k, v) \<in> set ps \<Longrightarrow> \<exists>c' good es. fld k v c = Decoded c' good es \<and> sel c' = sel c"
  shows "\<exists>r' es. decode_fields fld ps r = Decoded r' True es \<and> sel r' = sel r"
  using assms
proof (induction ps arbitrary: r)
  case Nil
  then show ?case by simp
next
  case (Cons p ps)
  obtain k v where p: "p = (k, v)" by (cases p)
  from Cons.prems [of k v r] p obtain r1 good es where
    1: "fld k v r = Decoded r1 good es" and s1: "sel r1 = sel r" by auto
  from Cons.IH [of r1] Cons.prems obtain r' es' where
    2: "decode_fields fld ps r1 = Decoded r' True es'" and s2: "sel r' = sel r1"
    by (metis list.set_intros(2))
  from 1 2 p have "decode_fields fld (p # ps) r = Decoded r' True (es @ es')" by simp
  with s1 s2 show ?case by simp
qed

lemma map_decoded_Decoded:
  "\<exists>x good es. d = Decoded x good es \<Longrightarrow> \<exists>y good es. map_decoded f d = Decoded y good es"
  by auto

lemma if_Decoded:
  assumes "c \<Longrightarrow> \<exists>x good es. a = Decoded x good es"
    and "\<not> c \<Longrightarrow> \<exists>x good es. b = Decoded x good es"
  shows "\<exists>x good es. (if c then a else b) = Decoded x good es"
  using assms by (cases c) simp_all

lemma BoxConfig_field_Decoded: "\<exists>c' good es. BoxConfig_field k v c = Decoded c' good es"
proof -
  have m: "\<exists>m good es. decode_map ''map[string]string'' (decode_string []) (Env c) v = Decoded m good es"
    by (rule decode_map_Decoded) (rule decode_string_Decoded)
  have p: "\<exists>m good es. decode_slice ''[]string'' (decode_string []) (Ports c) v = Decoded m good es"
    by (rule decode_slice_Decoded) (rule decode_string_Decoded)
  show ?thesis
    unfolding BoxConfig_field_def
    by (intro if_Decoded map_decoded_Decoded decode_string_Decoded m p) blast
qed

lemma box_ptr_Decoded: "\<exists>x good es. decode_ptr RawBoxConfig_UnmarshalYAML v = Decoded x good es"
proof -
  have f: "\<exists>r' es. decode_fields BoxConfig_field ps r = Decoded r' True es" for ps r
    using decode_fields_Decoded [of ps BoxConfig_field "\<lambda>c. ()" r] BoxConfig_field_Decoded
    by simp
  have "\<exists>b. RawBoxConfig_UnmarshalYAML v = Ok b \<or> (\<exists>es. RawBoxConfig_UnmarshalYAML v = Fail (TypeError es) b)"
  proof (cases v)
    case (YMap ps)
    from f [of ps empty_BoxConfig] obtain r' es where
      "decode_fields BoxConfig_field ps empty_BoxConfig = Decoded r' True es" by blast
    with YMap show ?thesis
      by (simp add: RawBoxConfig_UnmarshalYAML_def unmarshal_def decode_struct_def)
  qed (simp_all add: RawBoxConfig_UnmarshalYAML_def unmarshal_def decode_struct_def)
  then show ?thesis
    by (cases v) (auto simp add: decode_ptr_def callUnmarshaler_def decoded.map)
qed

lemma map_decoded_keeps:
  assumes "\<exists>x good es. d = Decoded x good es" and "\<And>x. sel (f x) = a"
  shows "\<exists>y good es. map_decoded f d = Decoded y good es \<and> sel y = a"
  using assms by auto

lemma if_Decoded_keeps:
  assumes "c \<Longrightarrow> \<exists>x good es. a = Decoded x good es \<and> sel x = s"
    and "\<not> c \<Longrightarrow> \<exists>x good es. b = Decoded x good es \<and> sel x = s"
  shows "\<exists>x good es. (if c then a else b) = Decoded x good es \<and> sel x = s"
  using assms by (cases c) simp_all

lemma Config_field_Decoded:
  assumes "k \<noteq> ''pipelinesmap''"
  shows "\<exists>c' good es. Config_field emit k v c = Decoded c' good es \<and> PipelinesMap c' = PipelinesMap c"
proof -
  have sv: "\<exists>m good es. decode_slice ''[]*core.RawBoxConfig'' (decode_ptr RawBoxConfig_UnmarshalYAML)
      (Config.Services c) v = Decoded m good es"
    by (rule decode_slice_Decoded) (rule box_ptr_Decoded)
  show ?thesis
    unfolding Config_field_def
    by (intro if_Decoded_keeps map_decoded_keeps decode_string_Decoded
        decode_int_Decoded box_ptr_Decoded sv)
      (use assms in auto)
qed

lemma extra_pipelines_keys:
  assumes "PipelinesMap r = Some pm0"
  shows "\<exists>c pm. extra_pipelines m r = Ok c \<and> PipelinesMap c = Some pm
     \<and> dom pm = dom pm0 \<union> (fst ` set m - configReservedWords)"
  using assms
proof (induction m arbitrary: r pm0)
  case Nil
  then show ?case by simp
next
  case (Cons kv m)
  obtain k v where kv: "kv = (k, v)" by (cases kv)
  show ?case
  proof (cases "k \<in> configReservedWords")
    case True
    with kv have "extra_pipelines (kv # m) r = extra_pipelines m r" by simp
    with Cons.IH [OF Cons.prems] True kv show ?thesis by auto
  next
    case False
    let ?r = "r\<lparr>PipelinesMap := Some (pm0(k \<mapsto> v))\<rparr>"
    from Cons.prems kv False have "extra_pipelines (kv # m) r = extra_pipelines m ?r" by simp
    moreover have "PipelinesMap ?r = Some (pm0(k \<mapsto> v))" by simp
    from Cons.IH [OF this] obtain c pm where "extra_pipelines m ?r = Ok c" "PipelinesMap c = Some pm"
      and "dom pm = dom (pm0(k \<mapsto> v)) \<union> (fst ` set m - configReservedWords)"
      by blast
    ultimately show ?thesis using False kv by auto
  qed
qed

text \<open>
  The configuration on a mapping without the key \<open>pipelinesmap\<close>, none of whose values
  stops the decoding of a pipeline: the parse succeeds whatever type errors there were,
  and the keys of \<open>PipelinesMap\<close> are the keys outside \<open>configReservedWords\<close> that have
  a value that was taken as a pipeline.
\<close>

lemma config_type_errors_dropped:
  assumes no: "''pipelinesmap'' \<notin> fst ` set ps"
    and dec: "\<And>k v. (k, v) \<in> set ps \<Longrightarrow>
       \<exists>x good es. decode_ptr (RawPipelineConfig_UnmarshalYAML emit) v = Decoded x good es"
  shows "\<exists>c pm. RawConfig_UnmarshalYAML emit (YMap ps) = Ok c \<and> PipelinesMap c = Some pm
     \<and> dom pm = {k. k \<notin> configReservedWords
          \<and> (\<exists>v x es. (k, v) \<in> set ps
                \<and> decode_ptr (RawPipelineConfig_UnmarshalYAML emit) v = Decoded x True es)}"
proof -
  let ?r = "empty_Config\<lparr>PipelinesMap := Some Map.empty\<rparr>"
  let ?elem = "decode_ptr (RawPipelineConfig_UnmarshalYAML emit)"
  have "\<exists>r1 es. decode_fields (Config_field emit) ps ?r = Decoded r1 True es
      \<and> PipelinesMap r1 = PipelinesMap ?r"
  proof (rule decode_fields_Decoded)
    fix k v c
    assume "(k, v) \<in> set ps"
    with no have "k \<noteq> ''pipelinesmap''" by force
    then show "\<exists>c' good es. Config_field emit k v c = Decoded c' good es \<and> PipelinesMap c' = PipelinesMap c"
      by (rule Config_field_Decoded)
  qed
  then obtain r1 es1 where
    typed: "decode_fields (Config_field emit) ps ?r = Decoded r1 True es1"
    and pm1: "PipelinesMap r1 = Some Map.empty"
    by auto
  from decode_pairs_Decoded [of ps ?elem] dec obtain xs es2 where
    pairs: "decode_pairs ?elem ps = Decoded xs True es2"
    and keys: "fst ` set xs = {k. \<exists>v x es. (k, v) \<in> set ps \<and> ?elem v = Decoded x True es}"
    by blast
  from typed pairs have run: "RawConfig_UnmarshalYAML emit (YMap ps) = extra_pipelines (entries xs) r1"
    by (simp add: RawConfig_UnmarshalYAML_def unmarshal_def decode_struct_def decode_map_entries_def)
  from extra_pipelines_keys [OF pm1, of "entries xs"] obtain c pm where
    "extra_pipelines (entries xs) r1 = Ok c" "PipelinesMap c = Some pm"
    "dom pm = fst ` set (entries xs) - configReservedWords"
    by auto
  with run keys show ?thesis
    by (auto simp add: entries_keys)
qed

lemmas config_eval =
  RawConfig_UnmarshalYAML_def RawPipelineConfig_UnmarshalYAML_def RawStepConfig_UnmarshalYAML_def
  RawBoxConfig_UnmarshalYAML_def Config_field_def PipelineConfig_field_def
  decode_struct_def decode_map_entries_def decode_slice_def decode_ptr_def decode_RawStepsConfig_def
  callUnmarshaler_def unmarshal_def empty_Config_def empty_PipelineConfig_def empty_StepConfig_def
  empty_BoxConfig_def configReservedWords_def pipelineReservedWords_def TrimSuffix_def cannot_def
  decode_MapSlice_def assert_MapSlice_def decode_MapItem_def MapItem_field_def
  decoded.map

text \<open>
  C3.  The loop of the pipeline skips its five reserved keys, and the loop of the
  configuration five of the six top-level keys: \<open>configReservedWords\<close> lacks
  \<open>ignore-file\<close>, although \<open>Config\<close> has the field \<open>IgnoreFile\<close> under that key.
  Whenever the value of \<open>ignore-file\<close> decodes as a pipeline (it is null, or a
  mapping), the key is stored in \<open>PipelinesMap\<close>.
\<close>

theorem ignore_file_in_PipelinesMap:
  "ConfigFromYaml (\<lambda>ps. ps) (Doc (YMap [(''ignore-file'', YNull)])) =
     Returns
       (Some \<lparr>Config.Box = None, CommandTimeout = 0, NoResponseTimeout = 0, Services = [],
              SourceDir = [], IgnoreFile = [], PipelinesMap = Some [''ignore-file'' \<mapsto> None]\<rparr>,
        None)
   \<and> ConfigFromYaml (\<lambda>ps. ps) (Doc (YMap [(''ignore-file'', YMap [(''steps'', YSeq [YStr ''a''])])])) =
     Returns
       (Some \<lparr>Config.Box = None, CommandTimeout = 0, NoResponseTimeout = 0, Services = [],
              SourceDir = [], IgnoreFile = [],
              PipelinesMap = Some [''ignore-file'' \<mapsto>
                Some \<lparr>PipelineConfig.Box = None,
                       Steps = [Some \<lparr>StepConfig.ID = ''a'', Cwd = [], Name = [], Data = None,
                                       Checkpoint = []\<rparr>],
                       AfterSteps = [], StepsMap = Some Map.empty, Services = [], BasePath = []\<rparr>]\<rparr>,
        None)"
  by (simp add: ConfigFromYaml_def Unmarshal_RawConfig_def IsValid_def config_eval)

lemma PipelineConfig_field_StepsMap:
  "k \<noteq> ''stepsmap'' \<Longrightarrow> PipelineConfig_field k v c = Decoded c' g es \<Longrightarrow> StepsMap c' = StepsMap c"
  by (auto simp add: PipelineConfig_field_def split: if_splits)

text \<open>
  The pipeline half of C3: after a parse that succeeds, the keys of \<open>StepsMap\<close> are the
  keys of the mapping that are not reserved.  (The key \<open>stepsmap\<close> would reach the
  field directly; it is set aside here.)
\<close>

lemma pipeline_StepsMap_keys:
  assumes "RawPipelineConfig_UnmarshalYAML emit node = Ok p"
  shows "\<exists>ps. node = YMap ps \<and>
     (''stepsmap'' \<notin> fst ` set ps \<longrightarrow>
        (\<exists>sm. StepsMap p = Some sm \<and> dom sm = fst ` set ps - pipelineReservedWords))"
proof -
  let ?r = "empty_PipelineConfig\<lparr>StepsMap := Some Map.empty\<rparr>"
  from pipeline_Ok_typed [OF assms] obtain ps r1 good where
    node: "node = YMap ps"
    and typed: "decode_fields PipelineConfig_field ps ?r = Decoded r1 good []"
    and loop: "extra_steps emit (entries ps) (r1\<lparr>BasePath := TrimSuffix (BasePath r1) ''/''\<rparr>) = Ok p"
    by blast
  let ?r2 = "r1\<lparr>BasePath := TrimSuffix (BasePath r1) ''/''\<rparr>"
  have "\<exists>sm. StepsMap p = Some sm \<and> dom sm = fst ` set ps - pipelineReservedWords"
    if no: "''stepsmap'' \<notin> fst ` set ps"
  proof -
    from typed have "case map_of (rev ps) ''stepsmap'' of
        None \<Rightarrow> StepsMap r1 = StepsMap ?r | Some v \<Rightarrow> True"
    proof (rule decode_fields_last)
      fix k v c c' g es
      assume "k \<noteq> ''stepsmap''" and "PipelineConfig_field k v c = Decoded c' g es"
      then show "StepsMap c' = StepsMap c" by (rule PipelineConfig_field_StepsMap)
    qed simp
    moreover from no have "map_of (rev ps) ''stepsmap'' = None"
      by (simp add: map_of_eq_None_iff)
    ultimately have sm0: "StepsMap ?r2 = Some Map.empty" by simp
    from extra_steps_cases [OF entries_distinct [of ps] sm0, of emit] loop
    obtain sm where sm: "StepsMap p = Some sm"
      and ins: "\<forall>(k, v) \<in> set (entries ps). k \<notin> pipelineReservedWords \<longrightarrow>
         (\<exists>x. unmarshal (decode_RawStepsConfig ''[]*core.RawStepConfig'' [] (remarshal emit v)) = Some (x, None)
              \<and> sm k = Some x)"
      and others: "\<forall>k. k \<notin> fst ` set (entries ps) - pipelineReservedWords \<longrightarrow> sm k = Map.empty k"
      by (elim disjE exE conjE) simp_all
    have "dom sm = fst ` set (entries ps) - pipelineReservedWords"
    proof (rule set_eqI)
      fix k
      show "k \<in> dom sm \<longleftrightarrow> k \<in> fst ` set (entries ps) - pipelineReservedWords"
        using ins others by (cases "k \<in> fst ` set (entries ps) - pipelineReservedWords") force+
    qed
    with sm show ?thesis by (simp add: entries_keys)
  qed
  with node show ?thesis by blast
qed

text \<open>
  C5, as stated, fails at the level of the configuration.  There a key that is not
  reserved is decoded as a pipeline, and a type error of that decoding is ignored by
  design: a key whose value is a plain string is left out without an error, and so is a
  pipeline that has itself an extra key whose value is not a list of steps.
\<close>

theorem config_extra_key_counterexample:
  "RawConfig_UnmarshalYAML (\<lambda>ps. ps) (YMap [(''build'', YStr ''make all'')]) =
     Ok \<lparr>Config.Box = None, CommandTimeout = 0, NoResponseTimeout = 0, Services = [],
         SourceDir = [], IgnoreFile = [], PipelinesMap = Some Map.empty\<rparr>
   \<and> RawConfig_UnmarshalYAML (\<lambda>ps. ps)
       (YMap [(''build'', YMap [(''steps'', YSeq [YStr ''a'']), (''deploy'', YStr ''x'')])]) =
     Ok \<lparr>Config.Box = None, CommandTimeout = 0, NoResponseTimeout = 0, Services = [],
         SourceDir = [], IgnoreFile = [], PipelinesMap = Some Map.empty\<rparr>"
  by (simp add: config_eval)

text \<open>
  C5, amended.  In the parse of a pipeline whose typed fields decode without an error, a
  key that is not reserved and whose value does not decode as a list of steps makes the
  parse fail with the type error that names a key of this kind (the one the loop reaches
  first).  The only other outcome is a panic, and that needs a key that is not reserved
  whose value makes the decoding of the steps panic (C10), or a \<open>StepsMap\<close> that the
  key \<open>stepsmap\<close> has set to nil.  In the parse of the configuration the type errors
  are ignored: on a mapping without the key \<open>pipelinesmap\<close>, none of whose values
  stops the decoding of a pipeline by another error or a panic, the parse succeeds, and
  \<open>PipelinesMap\<close> holds the keys outside \<open>configReservedWords\<close> that have a value
  taken as a pipeline; a key whose values all fail with a type error is left out.
\<close>

theorem extra_key_must_be_steps:
  "(unmarshal (decode_struct ''core.PipelineConfig'' PipelineConfig_field
       (empty_PipelineConfig\<lparr>StepsMap := Some Map.empty\<rparr>) (YMap ps)) = Some (r1, None)
    \<longrightarrow> (k, v) \<in> set (entries ps) \<longrightarrow> k \<notin> pipelineReservedWords
    \<longrightarrow> unmarshal (decode_RawStepsConfig ''[]*core.RawStepConfig'' [] (remarshal emit v)) = Some (x, Some e)
    \<longrightarrow> (\<exists>k' v' x' e' r'. (k', v') \<in> set (entries ps) \<and> k' \<notin> pipelineReservedWords
            \<and> unmarshal (decode_RawStepsConfig ''[]*core.RawStepConfig'' [] (remarshal emit v')) = Some (x', Some e')
            \<and> RawPipelineConfig_UnmarshalYAML emit (YMap ps) =
                Fail (TypeError [''Invalid extra key in pipeline, '' @ k' @ '' is not a list of steps'']) r')
        \<or> (RawPipelineConfig_UnmarshalYAML emit (YMap ps) = Panic
            \<and> (StepsMap r1 = None
               \<or> (\<exists>(k', v') \<in> set (entries ps). k' \<notin> pipelineReservedWords
                     \<and> unmarshal (decode_RawStepsConfig ''[]*core.RawStepConfig'' [] (remarshal emit v')) = None))))
   \<and> (''pipelinesmap'' \<notin> fst ` set qs
    \<longrightarrow> (\<forall>(k, v) \<in> set qs. \<exists>x good es.
           decode_ptr (RawPipelineConfig_UnmarshalYAML emit) v = Decoded x good es)
    \<longrightarrow> (\<exists>c pm. RawConfig_UnmarshalYAML emit (YMap qs) = Ok c \<and> PipelinesMap c = Some pm
           \<and> dom pm = {k. k \<notin> configReservedWords
                \<and> (\<exists>v x es. (k, v) \<in> set qs
                      \<and> decode_ptr (RawPipelineConfig_UnmarshalYAML emit) v = Decoded x True es)}))"
proof (intro conjI impI)
  let ?steps = "\<lambda>v. unmarshal (decode_RawStepsConfig ''[]*core.RawStepConfig'' [] (remarshal emit v))"
  assume typed: "unmarshal (decode_struct ''core.PipelineConfig'' PipelineConfig_field
       (empty_PipelineConfig\<lparr>StepsMap := Some Map.empty\<rparr>) (YMap ps)) = Some (r1, None)"
    and bad: "(k, v) \<in> set (entries ps)" "k \<notin> pipelineReservedWords" "?steps v = Some (x, Some e)"
  let ?r2 = "r1\<lparr>BasePath := TrimSuffix (BasePath r1) ''/''\<rparr>"
  have run: "RawPipelineConfig_UnmarshalYAML emit (YMap ps) = extra_steps emit (entries ps) ?r2"
    using typed by (rule pipeline_typed_ok)
  from extra_steps_outcome [of emit "entries ps" ?r2]
  show "(\<exists>k' v' x' e' r'. (k', v') \<in> set (entries ps) \<and> k' \<notin> pipelineReservedWords
            \<and> ?steps v' = Some (x', Some e')
            \<and> RawPipelineConfig_UnmarshalYAML emit (YMap ps) =
                Fail (TypeError [''Invalid extra key in pipeline, '' @ k' @ '' is not a list of steps'']) r')
        \<or> (RawPipelineConfig_UnmarshalYAML emit (YMap ps) = Panic
            \<and> (StepsMap r1 = None
               \<or> (\<exists>(k', v') \<in> set (entries ps). k' \<notin> pipelineReservedWords \<and> ?steps v' = None)))"
  proof (elim disjE exE conjE)
    assume "extra_steps emit (entries ps) ?r2 = Panic" "StepsMap ?r2 = None"
    with run show ?thesis by simp
  next
    assume "extra_steps emit (entries ps) ?r2 = Panic"
      "\<exists>(k, v) \<in> set (entries ps). k \<notin> pipelineReservedWords \<and> ?steps v = None"
    with run show ?thesis by simp
  next
    fix k' v' x' e' r'
    assume "(k', v') \<in> set (entries ps)" "k' \<notin> pipelineReservedWords" "?steps v' = Some (x', Some e')"
      "extra_steps emit (entries ps) ?r2 =
         Fail (TypeError [''Invalid extra key in pipeline, '' @ k' @ '' is not a list of steps'']) r'"
    with run show ?thesis by (intro disjI1) auto
  next
    fix p
    assume "\<forall>(k, v) \<in> set (entries ps). k \<notin> pipelineReservedWords \<longrightarrow> (\<exists>x. ?steps v = Some (x, None))"
    with bad have False by fastforce
    then show ?thesis ..
  qed
next
  assume no: "''pipelinesmap'' \<notin> fst ` set qs"
    and all: "\<forall>(k, v) \<in> set qs. \<exists>x good es.
           decode_ptr (RawPipelineConfig_UnmarshalYAML emit) v = Decoded x good es"
  show "\<exists>c pm. RawConfig_UnmarshalYAML emit (YMap qs) = Ok c \<and> PipelinesMap c = Some pm
           \<and> dom pm = {k. k \<notin> configReservedWords
                \<and> (\<exists>v x es. (k, v) \<in> set qs
                      \<and> decode_ptr (RawPipelineConfig_UnmarshalYAML emit) v = Decoded x True es)}"
  proof (rule config_type_errors_dropped [OF no])
    fix k v
    assume "(k, v) \<in> set qs"
    with all show "\<exists>x good es. decode_ptr (RawPipelineConfig_UnmarshalYAML emit) v = Decoded x good es"
      by (simp add: split_beta Ball_def)
  qed
qed

text \<open>
  A pipeline with a deploy target whose only step has no parameters, and a configuration
  whose only pipeline is a plain string.
\<close>

theorem extra_key_must_be_steps_witness:
  "unmarshal (decode_struct ''core.PipelineConfig'' PipelineConfig_field
       (empty_PipelineConfig\<lparr>StepsMap := Some Map.empty\<rparr>)
       (YMap [(''steps'', YSeq [YStr ''a'']), (''deploy'', YSeq [YMap [(''script'', YNull)]])])) =
     Some (\<lparr>PipelineConfig.Box = None,
             Steps = [Some \<lparr>StepConfig.ID = ''a'', Cwd = [], Name = [], Data = None, Checkpoint = []\<rparr>],
             AfterSteps = [], StepsMap = Some Map.empty, Services = [], BasePath = []\<rparr>, None)
   \<and> (''deploy'', YSeq [YMap [(''script'', YNull)]])
        \<in> set (entries [(''steps'', YSeq [YStr ''a'']), (''deploy'', YSeq [YMap [(''script'', YNull)]])])
   \<and> ''deploy'' \<notin> pipelineReservedWords
   \<and> unmarshal (decode_RawStepsConfig ''[]*core.RawStepConfig'' []
        (remarshal (\<lambda>ps. ps) (YSeq [YMap [(''script'', YNull)]]))) =
     Some ([], Some (ErrorString ''Step script is empty''))
   \<and> RawPipelineConfig_UnmarshalYAML (\<lambda>ps. ps)
        (YMap [(''steps'', YSeq [YStr ''a'']), (''deploy'', YSeq [YMap [(''script'', YNull)]])]) =
     Fail (TypeError [''Invalid extra key in pipeline, deploy is not a list of steps''])
       \<lparr>PipelineConfig.Box = None,
        Steps = [Some \<lparr>StepConfig.ID = ''a'', Cwd = [], Name = [], Data = None, Checkpoint = []\<rparr>],
        AfterSteps = [], StepsMap = Some Map.empty, Services = [], BasePath = []\<rparr>
   \<and> ''pipelinesmap'' \<notin> fst ` set [(''build'', YStr ''make all'')]
   \<and> decode_ptr (RawPipelineConfig_UnmarshalYAML (\<lambda>ps. ps)) (YStr ''make all'') =
        Decoded (Some (empty_PipelineConfig\<lparr>StepsMap := Some Map.empty\<rparr>)) False
          [''cannot unmarshal !!str into core.PipelineConfig'']
   \<and> RawConfig_UnmarshalYAML (\<lambda>ps. ps) (YMap [(''build'', YStr ''make all'')]) =
     Ok \<lparr>Config.Box = None, CommandTimeout = 0, NoResponseTimeout = 0, Services = [],
         SourceDir = [], IgnoreFile = [], PipelinesMap = Some Map.empty\<rparr>"
proof -
  let ?ps = "[(''steps'', YSeq [YStr ''a'']), (''deploy'', YSeq [YMap [(''script'', YNull)]])]"
  let ?r1 = "\<lparr>PipelineConfig.Box = None,
             Steps = [Some \<lparr>StepConfig.ID = ''a'', Cwd = [], Name = [], Data = None, Checkpoint = []\<rparr>],
             AfterSteps = [], StepsMap = Some Map.empty, Services = [], BasePath = []\<rparr>"
  let ?qs = "[(''build'', YStr ''make all'')]"
  let ?c = "\<lparr>Config.Box = None, CommandTimeout = 0, NoResponseTimeout = 0, Services = [],
         SourceDir = [], IgnoreFile = [], PipelinesMap = Some Map.empty\<rparr>"
  have 1: "unmarshal (decode_struct ''core.PipelineConfig'' PipelineConfig_field
       (empty_PipelineConfig\<lparr>StepsMap := Some Map.empty\<rparr>) (YMap ?ps)) = Some (?r1, None)"
    by (simp add: config_eval)
  have 2: "(''deploy'', YSeq [YMap [(''script'', YNull)]]) \<in> set (entries ?ps)"
    by simp
  have 3: "''deploy'' \<notin> pipelineReservedWords"
    by (simp add: pipelineReservedWords_def)
  have 4: "unmarshal (decode_RawStepsConfig ''[]*core.RawStepConfig'' []
        (remarshal (\<lambda>ps. ps) (YSeq [YMap [(''script'', YNull)]]))) =
     Some ([], Some (ErrorString ''Step script is empty''))"
    by (simp add: config_eval)
  have 5: "RawPipelineConfig_UnmarshalYAML (\<lambda>ps. ps) (YMap ?ps) =
     Fail (TypeError [''Invalid extra key in pipeline, deploy is not a list of steps'']) ?r1"
    by (simp add: config_eval)
  have 6: "''pipelinesmap'' \<notin> fst ` set ?qs"
    by simp
  have 7: "decode_ptr (RawPipelineConfig_UnmarshalYAML (\<lambda>ps. ps)) (YStr ''make all'') =
        Decoded (Some (empty_PipelineConfig\<lparr>StepsMap := Some Map.empty\<rparr>)) False
          [''cannot unmarshal !!str into core.PipelineConfig'']"
    by (simp add: config_eval)
  have 8: "RawConfig_UnmarshalYAML (\<lambda>ps. ps) (YMap ?qs) = Ok ?c"
    by (simp add: config_eval)
  note inst = extra_key_must_be_steps [where ps = ?ps and ?r1.0 = ?r1 and k = "''deploy''"
      and v = "YSeq [YMap [(''script'', YNull)]]" and emit = "\<lambda>ps. ps" and x = "[]"
      and e = "ErrorString ''Step script is empty''" and qs = ?qs]
  have h: "\<forall>(k, v) \<in> set ?qs. \<exists>x good es.
      decode_ptr (RawPipelineConfig_UnmarshalYAML (\<lambda>ps. ps)) v = Decoded x good es"
    using 7 by auto
  note pipeline = inst [THEN conjunct1, THEN mp, OF 1, THEN mp, OF 2, THEN mp, OF 3, THEN mp, OF 4]
  note config = inst [THEN conjunct2, THEN mp, OF 6, THEN mp, OF h]
  from pipeline 5 have "RawPipelineConfig_UnmarshalYAML (\<lambda>ps. ps) (YMap ?ps) \<noteq> Panic"
    by simp
  moreover from config 8 have "\<exists>pm. PipelinesMap ?c = Some pm"
    by simp
  ultimately show ?thesis
    using 1 2 3 4 5 6 7 8 by (intro conjI) assumption+
qed

text \<open>
  C6.  Without a document, or with a null document, \<open>ConfigFromYaml\<close> returns a nil
  configuration and the error \<open>Your wercker.yml is empty.\<close> behind the prefix of the
  parse failure; on a syntax error it returns a nil configuration and the error of the
  yaml parser behind the same prefix.  Whenever decoding leaves the configuration nil
  without an error, that is reported as the empty file.  Whatever the input, a result
  has a nil configuration exactly when it has an error, and every error carries the
  prefix.
\<close>

theorem ConfigFromYaml_empty_or_malformed:
  "ConfigFromYaml emit Empty =
     Returns (None, Some (ErrorString
       (''Error parsing your wercker.yml:'' @ newline @ ''  Your wercker.yml is empty.'')))
   \<and> ConfigFromYaml emit (Doc YNull) =
     Returns (None, Some (ErrorString
       (''Error parsing your wercker.yml:'' @ newline @ ''  Your wercker.yml is empty.'')))
   \<and> ConfigFromYaml emit (Malformed e) =
     Returns (None, Some (ErrorString (''Error parsing your wercker.yml:'' @ newline @ ''  '' @ e)))
   \<and> (Unmarshal_RawConfig emit file = Some (None, None) \<longrightarrow>
        ConfigFromYaml emit file =
          Returns (None, Some (ErrorString
            (''Error parsing your wercker.yml:'' @ newline @ ''  Your wercker.yml is empty.''))))
   \<and> (ConfigFromYaml emit file = Returns (cfg, err) \<longrightarrow>
        (cfg = None \<longleftrightarrow> err \<noteq> None)
        \<and> (\<forall>x. err = Some x \<longrightarrow>
              (\<exists>msg. x = ErrorString (''Error parsing your wercker.yml:'' @ newline @ ''  '' @ msg))))"
proof -
  have "ConfigFromYaml emit file = Returns (cfg, err) \<longrightarrow>
        (cfg = None \<longleftrightarrow> err \<noteq> None)
        \<and> (\<forall>x. err = Some x \<longrightarrow>
              (\<exists>msg. x = ErrorString (''Error parsing your wercker.yml:'' @ newline @ ''  '' @ msg)))"
    by (auto simp add: ConfigFromYaml_def IsValid_def Let_def split: option.splits if_splits)
  then show ?thesis
    by (simp add: ConfigFromYaml_def Unmarshal_RawConfig_def IsValid_def unmarshal_def decode_ptr_def)
qed

text \<open>A null document, and a document with a syntax error.\<close>

theorem ConfigFromYaml_empty_or_malformed_witness:
  "Unmarshal_RawConfig (\<lambda>ps. ps) (Doc YNull) = Some (None, None)
   \<and> ConfigFromYaml (\<lambda>ps. ps) (Doc YNull) =
       Returns (None, Some (ErrorString
         (''Error parsing your wercker.yml:'' @ newline @ ''  Your wercker.yml is empty.'')))
   \<and> ConfigFromYaml (\<lambda>ps. ps) (Malformed ''yaml: line 2: did not find expected key'') =
       Returns (None, Some (ErrorString
         (''Error parsing your wercker.yml:'' @ newline @ ''  yaml: line 2: did not find expected key'')))"
proof -
  have "Unmarshal_RawConfig (\<lambda>ps. ps) (Doc YNull) = Some (None, None)"
    by (simp add: Unmarshal_RawConfig_def unmarshal_def decode_ptr_def)
  then show ?thesis
    using ConfigFromYaml_empty_or_malformed
      [of "\<lambda>ps. ps" "''yaml: line 2: did not find expected key''" "Doc YNull"
        None "Some (ErrorString
         (''Error parsing your wercker.yml:'' @ newline @ ''  Your wercker.yml is empty.''))"]
    by simp
qed

end
